theory Spec2Isabelle
  imports Complex_Main
begin

section \<open>Lexer (src/puffing/src/lexer.py)\<close>

text \<open>
  Source text is a Python \<open>str\<close>. A character is modelled by a \<open>char\<close> read as the
  code point U+0000 .. U+00FF, and the character classes below are Python's
  \<open>str.isspace\<close>, \<open>str.isdigit\<close>, \<open>str.isalpha\<close> and \<open>str.isalnum\<close> on that
  range.
\<close>

datatype (plugins only: code) TokenType =
    LET | LOCK | AS | IF | ELIF | ELSE | PRINT | INPUT | LIB | FOR | IN | WHILE | DO
  | BREAK | CONTINUE | INT_T | FLOAT | STR_T | BOOL | IDENT | NUMBER | STRING | TRUE | FALSE
  | PLUS | MINUS | MULTIPLY | DIVIDE | MODULO | POWER | INCREMENT | DECREMENT
  | EQUAL | NOT_EQUAL | LESS | GREATER | LESS_EQUAL | GREATER_EQUAL | NOT | AND | OR
  | SEMICOLON | LPAREN | RPAREN | LBRACE | RBRACE | LBRACKET | RBRACKET | DOT | DOLLAR
  | COMMA | COLON | HASH | FUN | LAMB | RETURN | ARROW | EOF

text \<open>A number literal is a Python int or a Python float; floats are idealised as reals.\<close>

datatype number = NInt int | NFloat real

datatype payload = NoValue | NumValue number | StrValue string

datatype Token = Token (ttype: TokenType) (tvalue: payload)

text \<open>
  What \<open>Lexer.tokenize\<close> can raise: the \<open>LexerError\<close> of the error taxonomy with one
  of its two messages, or an exception of the host (\<open>TypeError\<close> from \<open>result += None\<close>,
  \<open>ValueError\<close> from \<open>int(result)\<close> or \<open>float(result)\<close>).
\<close>

datatype lexer_message =
    UnterminatedString nat nat
  | UnknownCharacter char nat nat

datatype lexer_exception =
    LexerError lexer_message
  | LexTypeError
  | LexValueError

definition code_point :: "char \<Rightarrow> nat" where
  "code_point c = of_char c"

definition isspace :: "char \<Rightarrow> bool" where
  "isspace c = (let n = code_point c in
     (9 \<le> n \<and> n \<le> 13) \<or> (28 \<le> n \<and> n \<le> 32) \<or> n = 133 \<or> n = 160)"

definition isdecimal :: "char \<Rightarrow> bool" where
  "isdecimal c = (let n = code_point c in 48 \<le> n \<and> n \<le> 57)"

definition isdigit :: "char \<Rightarrow> bool" where
  "isdigit c = (let n = code_point c in
     (48 \<le> n \<and> n \<le> 57) \<or> n = 178 \<or> n = 179 \<or> n = 185)"

definition isalpha :: "char \<Rightarrow> bool" where
  "isalpha c = (let n = code_point c in
     (65 \<le> n \<and> n \<le> 90) \<or> (97 \<le> n \<and> n \<le> 122) \<or> n = 170 \<or> n = 181 \<or> n = 186
     \<or> (192 \<le> n \<and> n \<le> 214) \<or> (216 \<le> n \<and> n \<le> 246) \<or> (248 \<le> n \<and> n \<le> 255))"

definition isalnum :: "char \<Rightarrow> bool" where
  "isalnum c = (let n = code_point c in
     isalpha c \<or> isdigit c \<or> (188 \<le> n \<and> n \<le> 190))"

text \<open>
  The lexer object. \<open>text\<close> and \<open>pos\<close> are kept together as the unread suffix
  \<open>text[pos:]\<close>, so \<open>current_char\<close> is its head (\<open>None\<close> at the end of the input) and
  \<open>peek()\<close> its second character.
\<close>

record Lexer =
  remaining :: string
  line :: nat
  column :: nat

definition Lexer_init :: "string \<Rightarrow> Lexer" where
  "Lexer_init text = \<lparr>remaining = text, line = 1, column = 1\<rparr>"

definition current_char :: "Lexer \<Rightarrow> char option" where
  "current_char lx = (case remaining lx of [] \<Rightarrow> None | c # _ \<Rightarrow> Some c)"

definition peek :: "Lexer \<Rightarrow> char option" where
  "peek lx = (case remaining lx of c # d # _ \<Rightarrow> Some d | _ \<Rightarrow> None)"

definition advance :: "Lexer \<Rightarrow> Lexer" where
  "advance lx =
     (if current_char lx = Some (CHR 0x0A)
      then lx\<lparr>remaining := tl (remaining lx), line := line lx + 1, column := 1\<rparr>
      else lx\<lparr>remaining := tl (remaining lx), column := column lx + 1\<rparr>)"

lemma advance_length [simp]: "length (remaining (advance lx)) = length (remaining lx) - 1"
  by (simp add: advance_def)

lemma current_char_Some_length: "current_char lx = Some c \<Longrightarrow> 0 < length (remaining lx)"
  by (auto simp: current_char_def split: list.splits)

function skip_whitespace :: "Lexer \<Rightarrow> Lexer" where
  "skip_whitespace lx =
     (case current_char lx of
        None \<Rightarrow> lx
      | Some c \<Rightarrow> if isspace c then skip_whitespace (advance lx) else lx)"
  by pat_completeness auto
termination
  by (relation "measure (\<lambda>lx. length (remaining lx))")
     (auto dest: current_char_Some_length)

declare skip_whitespace.simps [simp del]

function skip_to_newline :: "Lexer \<Rightarrow> Lexer" where
  "skip_to_newline lx =
     (case current_char lx of
        None \<Rightarrow> lx
      | Some c \<Rightarrow> if c \<noteq> CHR 0x0A then skip_to_newline (advance lx) else lx)"
  by pat_completeness auto
termination
  by (relation "measure (\<lambda>lx. length (remaining lx))")
     (auto dest: current_char_Some_length)

declare skip_to_newline.simps [simp del]

definition skip_single_line_comment :: "Lexer \<Rightarrow> Lexer" where
  "skip_single_line_comment lx =
     (let lx1 = skip_to_newline (advance lx)
      in if current_char lx1 = Some (CHR 0x0A) then advance lx1 else lx1)"

text \<open>The loop of \<open>skip_block_comment\<close>: it ends at the close marker or at the end of input.\<close>

function find_comment_end :: "Lexer \<Rightarrow> Lexer" where
  "find_comment_end lx =
     (case current_char lx of
        None \<Rightarrow> lx
      | Some c \<Rightarrow>
          if c = CHR ''-'' \<and> peek lx = Some (CHR ''?'') then advance (advance lx)
          else find_comment_end (advance lx))"
  by pat_completeness auto
termination
  by (relation "measure (\<lambda>lx. length (remaining lx))")
     (auto dest: current_char_Some_length)

declare find_comment_end.simps [simp del]

definition skip_block_comment :: "Lexer \<Rightarrow> Lexer" where
  "skip_block_comment lx = find_comment_end (advance (advance lx))"

text \<open>The loops \<open>while self.current_char and p(self.current_char): result += ...; advance()\<close>.\<close>

function scan_while :: "(char \<Rightarrow> bool) \<Rightarrow> string \<Rightarrow> Lexer \<Rightarrow> string \<times> Lexer" where
  "scan_while p result lx =
     (case current_char lx of
        None \<Rightarrow> (result, lx)
      | Some c \<Rightarrow> if p c then scan_while p (result @ [c]) (advance lx) else (result, lx))"
  by pat_completeness auto
termination
  by (relation "measure (\<lambda>(p, result, lx). length (remaining lx))")
     (auto dest: current_char_Some_length)

declare scan_while.simps [simp del]

text \<open>
  \<open>int(result)\<close> and \<open>float(result)\<close> on the scanned text: Python accepts the decimal
  digits and raises \<open>ValueError\<close> on the other characters \<open>isdigit\<close> lets through.
\<close>

definition digit_value :: "char \<Rightarrow> nat" where
  "digit_value c = code_point c - 48"

definition digits_value :: "string \<Rightarrow> nat" where
  "digits_value ds = foldl (\<lambda>acc c. 10 * acc + digit_value c) 0 ds"

definition py_int :: "string \<Rightarrow> int option" where
  "py_int ds = (if ds \<noteq> [] \<and> list_all isdecimal ds then Some (int (digits_value ds)) else None)"

definition py_float :: "string \<Rightarrow> string \<Rightarrow> real option" where
  "py_float ds fs =
     (if ds \<noteq> [] \<and> fs \<noteq> [] \<and> list_all isdecimal ds \<and> list_all isdecimal fs
      then Some (real (digits_value ds) + real (digits_value fs) / 10 ^ length fs)
      else None)"

definition number :: "Lexer \<Rightarrow> lexer_exception + Token \<times> Lexer" where
  "number lx =
     (let (ds, lx1) = scan_while isdigit [] lx in
      if current_char lx1 = Some (CHR ''.'') \<and> (case peek lx1 of None \<Rightarrow> False | Some d \<Rightarrow> isdigit d)
      then (let (fs, lx2) = scan_while isdigit [] (advance lx1) in
            case py_float ds fs of
              None \<Rightarrow> Inl LexValueError
            | Some x \<Rightarrow> Inr (Token NUMBER (NumValue (NFloat x)), lx2))
      else (case py_int ds of
              None \<Rightarrow> Inl LexValueError
            | Some i \<Rightarrow> Inr (Token NUMBER (NumValue (NInt i)), lx1)))"

text \<open>
  The loop of \<open>Lexer.string\<close>. After a backslash the lexer advances and appends the
  character it finds; at the end of input that character is \<open>None\<close> and the append
  raises \<open>TypeError\<close>.
\<close>

function string_body :: "string \<Rightarrow> Lexer \<Rightarrow> lexer_exception + string \<times> Lexer" where
  "string_body result lx =
     (case current_char lx of
        None \<Rightarrow> Inr (result, lx)
      | Some c \<Rightarrow>
          if c = CHR 0x22 then Inr (result, lx)
          else if c = CHR 0x5C then
            (let lx1 = advance lx in
             case current_char lx1 of
               None \<Rightarrow> Inl LexTypeError
             | Some e \<Rightarrow>
                 string_body
                   (result @ [if e = CHR ''n'' then CHR 0x0A
                              else if e = CHR ''t'' then CHR 0x09
                              else e])
                   (advance lx1))
          else string_body (result @ [c]) (advance lx))"
  by pat_completeness auto
termination
  by (relation "measure (\<lambda>(result, lx). length (remaining lx))")
     (auto dest: current_char_Some_length)

declare string_body.simps [simp del]

definition string_tok :: "Lexer \<Rightarrow> lexer_exception + Token \<times> Lexer" where
  "string_tok lx =
     (case string_body [] (advance lx) of
        Inl e \<Rightarrow> Inl e
      | Inr (result, lx1) \<Rightarrow>
          (case current_char lx1 of
             None \<Rightarrow> Inl (LexerError (UnterminatedString (line lx1) (column lx1)))
           | Some c \<Rightarrow> Inr (Token STRING (StrValue result), advance lx1)))"

definition keyword_table :: "string \<Rightarrow> TokenType option" where
  "keyword_table w =
     map_of
       [(''let'', LET), (''lock'', LOCK), (''as'', AS), (''if'', IF), (''elif'', ELIF),
        (''else'', ELSE), (''print'', PRINT), (''input'', INPUT), (''lib'', LIB),
        (''for'', FOR), (''in'', IN), (''while'', WHILE), (''do'', DO), (''break'', BREAK),
        (''continue'', CONTINUE), (''int'', INT_T), (''float'', FLOAT), (''str'', STR_T),
        (''bool'', BOOL), (''true'', TRUE), (''false'', FALSE), (''and'', AND), (''or'', OR),
        (''fun'', FUN), (''lamb'', LAMB), (''return'', RETURN)] w"

definition identifier_tok :: "Lexer \<Rightarrow> Token \<times> Lexer" where
  "identifier_tok lx =
     (let (result, lx1) = scan_while (\<lambda>c. isalnum c \<or> c = CHR ''_'') [] lx in
      case keyword_table result of
        Some t \<Rightarrow> (Token t NoValue, lx1)
      | None \<Rightarrow> (Token IDENT (StrValue result), lx1))"

definition two_char_operator :: "char \<Rightarrow> char option \<Rightarrow> TokenType option" where
  "two_char_operator c p =
     (if c = CHR ''*'' \<and> p = Some (CHR ''*'') then Some POWER
      else if c = CHR ''+'' \<and> p = Some (CHR ''+'') then Some INCREMENT
      else if c = CHR ''-'' \<and> p = Some (CHR ''-'') then Some DECREMENT
      else if c = CHR ''<'' \<and> p = Some (CHR ''='') then Some LESS_EQUAL
      else if c = CHR ''>'' \<and> p = Some (CHR ''='') then Some GREATER_EQUAL
      else if c = CHR ''!'' \<and> p = Some (CHR ''='') then Some NOT_EQUAL
      else if c = CHR ''='' \<and> p = Some (CHR ''>'') then Some ARROW
      else None)"

definition single_char_operator :: "char \<Rightarrow> TokenType option" where
  "single_char_operator c =
     (if c = CHR ''+'' then Some PLUS
      else if c = CHR ''-'' then Some MINUS
      else if c = CHR ''*'' then Some MULTIPLY
      else if c = CHR ''/'' then Some DIVIDE
      else if c = CHR ''%'' then Some MODULO
      else if c = CHR ''='' then Some EQUAL
      else if c = CHR ''<'' then Some LESS
      else if c = CHR ''>'' then Some GREATER
      else if c = CHR ''!'' then Some NOT
      else if c = CHR '';'' then Some SEMICOLON
      else if c = CHR ''('' then Some LPAREN
      else if c = CHR '')'' then Some RPAREN
      else if c = CHR ''{'' then Some LBRACE
      else if c = CHR ''}'' then Some RBRACE
      else if c = CHR ''['' then Some LBRACKET
      else if c = CHR '']'' then Some RBRACKET
      else if c = CHR ''.'' then Some DOT
      else if c = CHR ''$'' then Some DOLLAR
      else if c = CHR '','' then Some COMMA
      else if c = CHR '':'' then Some COLON
      else if c = CHR ''#'' then Some HASH
      else None)"

text \<open>
  Each scanner leaves a suffix of what it was given; the ones the main loop relies on
  for progress leave a strictly shorter one.
\<close>

lemma skip_whitespace_length:
  "length (remaining (skip_whitespace lx)) \<le> length (remaining lx)"
proof (induction lx rule: skip_whitespace.induct)
  case (1 lx)
  show ?case
  proof (cases "current_char lx")
    case None
    then show ?thesis by (simp add: skip_whitespace.simps [of lx])
  next
    case (Some c)
    show ?thesis
    proof (cases "isspace c")
      case True
      with Some 1 have "length (remaining (skip_whitespace (advance lx))) \<le> length (remaining (advance lx))"
        by simp
      with Some True show ?thesis by (simp add: skip_whitespace.simps [of lx])
    next
      case False
      with Some show ?thesis by (simp add: skip_whitespace.simps [of lx])
    qed
  qed
qed

lemma skip_to_newline_length:
  "length (remaining (skip_to_newline lx)) \<le> length (remaining lx)"
proof (induction lx rule: skip_to_newline.induct)
  case (1 lx)
  show ?case
  proof (cases "current_char lx")
    case None
    then show ?thesis by (simp add: skip_to_newline.simps [of lx])
  next
    case (Some c)
    show ?thesis
    proof (cases "c \<noteq> CHR 0x0A")
      case True
      with Some 1 have "length (remaining (skip_to_newline (advance lx))) \<le> length (remaining (advance lx))"
        by simp
      with Some True show ?thesis by (simp add: skip_to_newline.simps [of lx])
    next
      case False
      with Some show ?thesis by (simp add: skip_to_newline.simps [of lx])
    qed
  qed
qed

lemma find_comment_end_length:
  "length (remaining (find_comment_end lx)) \<le> length (remaining lx)"
proof (induction lx rule: find_comment_end.induct)
  case (1 lx)
  show ?case
  proof (cases "current_char lx")
    case None
    then show ?thesis by (simp add: find_comment_end.simps [of lx])
  next
    case (Some c)
    show ?thesis
    proof (cases "c = CHR ''-'' \<and> peek lx = Some (CHR ''?'')")
      case True
      with Some show ?thesis by (simp add: find_comment_end.simps [of lx])
    next
      case False
      with Some 1 have "length (remaining (find_comment_end (advance lx))) \<le> length (remaining (advance lx))"
        by simp
      with Some False show ?thesis by (simp add: find_comment_end.simps [of lx])
    qed
  qed
qed

lemma scan_while_length:
  "scan_while p result lx = (r, lx') \<Longrightarrow> length (remaining lx') \<le> length (remaining lx)"
proof (induction p result lx arbitrary: r lx' rule: scan_while.induct)
  case (1 p result lx)
  show ?case
  proof (cases "current_char lx")
    case None
    with 1(2) show ?thesis by (simp add: scan_while.simps [of p result lx])
  next
    case (Some c)
    show ?thesis
    proof (cases "p c")
      case True
      with Some 1(2) have "scan_while p (result @ [c]) (advance lx) = (r, lx')"
        by (simp add: scan_while.simps [of p result lx])
      with 1(1) Some True have "length (remaining lx') \<le> length (remaining (advance lx))"
        by blast
      then show ?thesis by simp
    next
      case False
      with Some 1(2) show ?thesis by (simp add: scan_while.simps [of p result lx])
    qed
  qed
qed

lemma scan_while_progress:
  assumes "current_char lx = Some c" and "p c" and "scan_while p result lx = (r, lx')"
  shows "length (remaining lx') < length (remaining lx)"
proof -
  from assms have "scan_while p (result @ [c]) (advance lx) = (r, lx')"
    by (simp add: scan_while.simps [of p result lx])
  then have "length (remaining lx') \<le> length (remaining (advance lx))"
    by (rule scan_while_length)
  with current_char_Some_length [OF assms(1)] show ?thesis
    by (cases "remaining lx") auto
qed

lemma string_body_length:
  "string_body result lx = Inr (r, lx') \<Longrightarrow> length (remaining lx') \<le> length (remaining lx)"
proof (induction result lx arbitrary: r lx' rule: string_body.induct)
  case (1 result lx)
  show ?case
  proof (cases "current_char lx")
    case None
    with 1(3) show ?thesis by (simp add: string_body.simps [of result lx])
  next
    case (Some c)
    consider (quote) "c = CHR 0x22" | (esc) "c \<noteq> CHR 0x22" "c = CHR 0x5C"
      | (plain) "c \<noteq> CHR 0x22" "c \<noteq> CHR 0x5C" by blast
    then show ?thesis
    proof cases
      case quote
      with Some 1(3) show ?thesis by (simp add: string_body.simps [of result lx])
    next
      case esc
      show ?thesis
      proof (cases "current_char (advance lx)")
        case None
        with Some esc 1(3) show ?thesis by (simp add: string_body.simps [of result lx])
      next
        case (Some e)
        with \<open>current_char lx = Some c\<close> esc 1(3)
        have "string_body (result @ [if e = CHR ''n'' then CHR 0x0A
                              else if e = CHR ''t'' then CHR 0x09 else e])
                 (advance (advance lx)) = Inr (r, lx')"
          by (simp add: string_body.simps [of result lx])
        with 1(1) [OF \<open>current_char lx = Some c\<close> _ _ refl Some] esc
        have "length (remaining lx') \<le> length (remaining (advance (advance lx)))"
          by simp
        then show ?thesis by simp
      qed
    next
      case plain
      with Some 1(3) have "string_body (result @ [c]) (advance lx) = Inr (r, lx')"
        by (simp add: string_body.simps [of result lx])
      with 1(2) [OF Some] plain have "length (remaining lx') \<le> length (remaining (advance lx))"
        by simp
      then show ?thesis by simp
    qed
  qed
qed

lemma number_progress:
  assumes "current_char lx = Some c" and "isdigit c" and "number lx = Inr (t, lx')"
  shows "length (remaining lx') < length (remaining lx)"
proof -
  obtain ds lx1 where s1: "scan_while isdigit [] lx = (ds, lx1)"
    by (cases "scan_while isdigit [] lx")
  have l1: "length (remaining lx1) < length (remaining lx)"
    using scan_while_progress [OF assms(1,2) s1] .
  obtain fs lx2 where s2: "scan_while isdigit [] (advance lx1) = (fs, lx2)"
    by (cases "scan_while isdigit [] (advance lx1)")
  have l2: "length (remaining lx2) \<le> length (remaining lx1)"
    using scan_while_length [OF s2] by simp
  from assms(3) s1 s2 have "lx' = lx1 \<or> lx' = lx2"
    by (auto simp: number_def split: if_splits option.splits)
  with l1 l2 show ?thesis by auto
qed

lemma string_tok_progress:
  assumes "current_char lx = Some c" and "string_tok lx = Inr (t, lx')"
  shows "length (remaining lx') < length (remaining lx)"
proof -
  from assms(2) obtain r lx1 where b: "string_body [] (advance lx) = Inr (r, lx1)"
    and e: "lx' = advance lx1"
    by (auto simp: string_tok_def split: sum.splits option.splits)
  from string_body_length [OF b] have "length (remaining lx1) \<le> length (remaining lx) - 1"
    by simp
  with e current_char_Some_length [OF assms(1)] show ?thesis
    by (cases "remaining lx") auto
qed

lemma identifier_progress:
  assumes "current_char lx = Some c" and "isalpha c \<or> c = CHR ''_''"
    and "(t, lx') = identifier_tok lx"
  shows "length (remaining lx') < length (remaining lx)"
proof -
  obtain r lx1 where s1: "scan_while (\<lambda>c. isalnum c \<or> c = CHR ''_'') [] lx = (r, lx1)"
    by (cases "scan_while (\<lambda>c. isalnum c \<or> c = CHR ''_'') [] lx")
  from assms(2) have "isalnum c \<or> c = CHR ''_''" by (auto simp: isalnum_def)
  from scan_while_progress [OF assms(1) this s1]
  have "length (remaining lx1) < length (remaining lx)" .
  moreover from assms(3) [symmetric] s1 have "lx' = lx1"
    by (auto simp: identifier_tok_def split: option.splits)
  ultimately show ?thesis by simp
qed

lemma skip_single_line_comment_progress:
  assumes "current_char lx = Some c"
  shows "length (remaining (skip_single_line_comment lx)) < length (remaining lx)"
proof -
  have "length (remaining (skip_to_newline (advance lx))) \<le> length (remaining lx) - 1"
    using skip_to_newline_length [of "advance lx"] by simp
  then have "length (remaining (skip_single_line_comment lx)) \<le> length (remaining lx) - 1"
    by (auto simp: skip_single_line_comment_def Let_def)
  with current_char_Some_length [OF assms] show ?thesis
    by (cases "remaining lx") auto
qed

lemma skip_block_comment_progress:
  assumes "current_char lx = Some c"
  shows "length (remaining (skip_block_comment lx)) < length (remaining lx)"
proof -
  have "length (remaining (skip_block_comment lx)) \<le> length (remaining lx) - 1"
    using find_comment_end_length [of "advance (advance lx)"]
    by (simp add: skip_block_comment_def)
  with current_char_Some_length [OF assms] show ?thesis
    by (cases "remaining lx") auto
qed

lemma skip_whitespace_progress:
  assumes "current_char lx = Some c" and "isspace c"
  shows "length (remaining (skip_whitespace lx)) < length (remaining lx)"
proof -
  from assms have "skip_whitespace lx = skip_whitespace (advance lx)"
    by (simp add: skip_whitespace.simps [of lx])
  then have "length (remaining (skip_whitespace lx)) \<le> length (remaining lx) - 1"
    using skip_whitespace_length [of "advance lx"] by simp
  with current_char_Some_length [OF assms(1)] show ?thesis
    by (cases "remaining lx") auto
qed

lemma advance_progress:
  "current_char lx = Some c \<Longrightarrow> length (remaining (advance lx)) < length (remaining lx)"
  by (cases "remaining lx") (auto dest: current_char_Some_length)

lemma advance_twice_progress:
  "current_char lx = Some c \<Longrightarrow>
   length (remaining (advance (advance lx))) < length (remaining lx)"
  by (cases "remaining lx") (auto dest: current_char_Some_length)

text \<open>
  The main loop of \<open>Lexer.tokenize\<close>, in the order of its tests: whitespace, comments,
  numbers, strings, identifiers and keywords, two-character operators, single-character
  operators, and the \<open>LexerError\<close> for anything else.
\<close>

function tokenize_loop :: "Lexer \<Rightarrow> Token list \<Rightarrow> lexer_exception + Token list" where
  "tokenize_loop lx tokens =
     (case current_char lx of
        None \<Rightarrow> Inr (tokens @ [Token EOF NoValue])
      | Some c \<Rightarrow>
          if isspace c then tokenize_loop (skip_whitespace lx) tokens
          else if c = CHR ''?'' then
            (if peek lx = Some (CHR ''-'') then tokenize_loop (skip_block_comment lx) tokens
             else tokenize_loop (skip_single_line_comment lx) tokens)
          else if isdigit c then
            (case number lx of
               Inl e \<Rightarrow> Inl e
             | Inr (t, lx1) \<Rightarrow> tokenize_loop lx1 (tokens @ [t]))
          else if c = CHR 0x22 then
            (case string_tok lx of
               Inl e \<Rightarrow> Inl e
             | Inr (t, lx1) \<Rightarrow> tokenize_loop lx1 (tokens @ [t]))
          else if isalpha c \<or> c = CHR ''_'' then
            (case identifier_tok lx of (t, lx1) \<Rightarrow> tokenize_loop lx1 (tokens @ [t]))
          else
            (case two_char_operator c (peek lx) of
               Some t \<Rightarrow> tokenize_loop (advance (advance lx)) (tokens @ [Token t NoValue])
             | None \<Rightarrow>
                 (case single_char_operator c of
                    Some t \<Rightarrow> tokenize_loop (advance lx) (tokens @ [Token t NoValue])
                  | None \<Rightarrow> Inl (LexerError (UnknownCharacter c (line lx) (column lx))))))"
  by pat_completeness auto
termination
  by (relation "measure (\<lambda>(lx, tokens). length (remaining lx))")
     (auto simp: skip_whitespace_progress skip_block_comment_progress
        skip_single_line_comment_progress advance_progress advance_twice_progress
        simp del: advance_length
        dest: number_progress string_tok_progress
        intro: identifier_progress)

declare tokenize_loop.simps [simp del]

definition tokenize :: "string \<Rightarrow> lexer_exception + Token list" where
  "tokenize text = tokenize_loop (Lexer_init text) []"

section \<open>Abstract syntax (src/puffing/src/ast_nodes.py)\<close>

text \<open>
  One constructor per node class, with the fields of its \<open>__init__\<close>. Two classes are
  written with a different shape. \<open>IndexAssignNode\<close> loses its \<open>key_node\<close>, which the
  parser always sets to \<open>None\<close> and the interpreter never reads. \<open>FunctionCallNode\<close>
  holds in \<open>name\<close> either a string or a \<open>LambdaNode\<close> (an immediately invoked lambda);
  the second case is the constructor \<open>LambdaCallNode\<close> with the lambda's three fields.
\<close>

datatype node =
    NumberNode number
  | StringNode string
  | BoolNode bool
  | ArrayNode "node list"
  | SetNode "node list"
  | DictNode "(node \<times> node) list"
  | IndexAccessNode node node
  | IndexAssignNode node node
  | VarAssignNode string node bool
  | VarReassignNode string node
  | CompoundAssignNode string node TokenType
  | IncrementNode string TokenType bool
  | VarAccessNode string
  | BinaryOpNode node TokenType node
  | UnaryOpNode TokenType node
  | TypeCastNode node TokenType
  | FormatNode node int
  | PrintNode "node list"
  | InputNode "TokenType option"
  | IfNode node node "(node \<times> node) list" "node option"
  | ForLoopNode string node node
  | RangeNode node "node option" "node option"
  | WhileLoopNode node node
  | DoWhileLoopNode node node
  | BreakNode
  | ContinueNode
  | BlockNode "node list"
  | LibImportNode string
  | FunctionCallNode string "node list"
  | LambdaCallNode "string list" node bool "node list"
  | FunctionDefNode string "string list" node
  | LambdaNode "string list" node bool
  | ReturnNode "node option"
  | DestructureAssignNode "string list" node bool

section \<open>Values, environment and errors (src/puffing/src/interpreter.py)\<close>

text \<open>
  The values of the embedding: \<open>None\<close>, booleans, integers (unbounded), floats
  (idealised as reals: no rounding, no overflow, no infinities), text, arrays, and the
  \<open>PuffingFunction\<close> and \<open>PuffingLambda\<close> objects. An array is a reference into the
  heap, so that two bindings can share one Python list. Sets, dictionaries and the
  native functions of the two libraries are outside the embedding: the nodes and
  builtins that would create one evaluate to \<open>Unmodelled\<close> below.
\<close>

datatype val =
    VNone
  | VBool bool
  | VInt int
  | VFloat real
  | VStr string
  | VList nat
  | VFunction string "string list" node
  | VLambda "string list" node bool

text \<open>
  The messages of the \<open>RuntimeError\<close>s the interpreter raises; each constructor stands
  for one message text of the source, and carries what the text interpolates.
\<close>

datatype message =
    FunctionArgumentCount string nat nat
  | LambdaArgumentCount nat nat
  | IndexMustBeInteger val
  | IndexOutOfRange val nat
  | IndexInvalid val
  | CannotIndex val
  | CanOnlyAssignToVariable
  | CannotModifyConstant string
  | CannotReassignConstant string
  | CannotAssignToIndex val
  | CannotDestructure val
  | NotEnoughValues nat nat
  | DivisionByZero
  | UnknownCompoundOperator TokenType
  | UnknownIncrementOperator TokenType
  | UnknownBinaryOperator TokenType
  | UnknownUnaryOperator TokenType
  | ForLoopRequiresIterable
  | FunctionNotDefined string
  | NotAFunction string
  | BuiltinArgumentCount string
  | BuiltinRequires string
  | BuiltinIndexMustBeInteger string
  | BuiltinIndexOutOfRange val
  | HasNoLen val
  | FromEmptyArray string

text \<open>
  The two classes of errors.py that interpreter.py imports and raises:
  \<open>RuntimeError\<close> (with a message) and its subclass \<open>VariableNotDefinedError\<close> (with
  the text it is given as the variable name).
\<close>

datatype puffing_error =
    RuntimeError message
  | VariableNotDefinedError string

text \<open>The exceptions of the host language that the interpreter's own code can raise.\<close>

datatype host_exception =
    TypeError
  | ZeroDivisionError
  | ValueError
  | IndexError
  | RecursionError
  | OverflowError

text \<open>
  How an evaluation ends: with a value; with one of the three control-flow exceptions
  of interpreter.py; with an error of the taxonomy; with an exception of the host that
  is not a \<open>PuffingError\<close>. \<open>Unmodelled\<close> marks behaviour outside the embedding and
  \<open>Timeout\<close> a run that the iteration budget cut off; nothing is claimed of either.
\<close>

datatype outcome =
    Value val
  | BreakException
  | ContinueException
  | ReturnException val
  | PuffingError puffing_error
  | HostException host_exception
  | Unmodelled
  | Timeout

record Interpreter =
  variables :: "string \<Rightarrow> val option"
  constants :: "string set"
  heap :: "val list list"

definition Interpreter_init :: Interpreter where
  "Interpreter_init = \<lparr>variables = Map.empty, constants = {}, heap = []\<rparr>"

definition list_at :: "Interpreter \<Rightarrow> nat \<Rightarrow> val list option" where
  "list_at s a = (if a < length (heap s) then Some (heap s ! a) else None)"

definition new_list :: "val list \<Rightarrow> Interpreter \<Rightarrow> outcome \<times> Interpreter" where
  "new_list xs s = (Value (VList (length (heap s))), s\<lparr>heap := heap s @ [xs]\<rparr>)"

definition store_list :: "nat \<Rightarrow> val list \<Rightarrow> Interpreter \<Rightarrow> Interpreter" where
  "store_list a xs s = s\<lparr>heap := (heap s)[a := xs]\<rparr>"

definition runtime_error :: "message \<Rightarrow> outcome" where
  "runtime_error m = PuffingError (RuntimeError m)"

subsection \<open>The host's operations on values\<close>

text \<open>\<open>isinstance(v, int)\<close>: Python's \<open>bool\<close> is a subclass of \<open>int\<close>.\<close>

definition as_int :: "val \<Rightarrow> int option" where
  "as_int v = (case v of VInt i \<Rightarrow> Some i | VBool b \<Rightarrow> Some (if b then 1 else 0) | _ \<Rightarrow> None)"

datatype pynum = PInt int | PFloat real

definition to_num :: "val \<Rightarrow> pynum option" where
  "to_num v =
     (case v of
        VInt i \<Rightarrow> Some (PInt i)
      | VBool b \<Rightarrow> Some (PInt (if b then 1 else 0))
      | VFloat x \<Rightarrow> Some (PFloat x)
      | _ \<Rightarrow> None)"

definition num_real :: "pynum \<Rightarrow> real" where
  "num_real n = (case n of PInt i \<Rightarrow> of_int i | PFloat x \<Rightarrow> x)"

definition num_arith :: "(int \<Rightarrow> int \<Rightarrow> int) \<Rightarrow> (real \<Rightarrow> real \<Rightarrow> real) \<Rightarrow> pynum \<Rightarrow> pynum \<Rightarrow> val" where
  "num_arith fi fr a b =
     (case (a, b) of
        (PInt i, PInt j) \<Rightarrow> VInt (fi i j)
      | _ \<Rightarrow> VFloat (fr (num_real a) (num_real b)))"

definition is_truthy :: "Interpreter \<Rightarrow> val \<Rightarrow> bool" where
  "is_truthy s v =
     (case v of
        VNone \<Rightarrow> False
      | VBool b \<Rightarrow> b
      | VInt i \<Rightarrow> i \<noteq> 0
      | VFloat x \<Rightarrow> x \<noteq> 0
      | VStr t \<Rightarrow> t \<noteq> []
      | VList a \<Rightarrow> (case list_at s a of Some xs \<Rightarrow> xs \<noteq> [] | None \<Rightarrow> True)
      | _ \<Rightarrow> True)"

fun decimal :: "nat \<Rightarrow> string" where
  "decimal n =
     (if n < 10 then [char_of (48 + n)]
      else decimal (n div 10) @ [char_of (48 + n mod 10)])"

declare decimal.simps [simp del]

text \<open>
  \<open>str(v)\<close>, where the embedding has it: the text of a float or of an array is not
  modelled.
\<close>

definition py_str :: "val \<Rightarrow> string option" where
  "py_str v =
     (case v of
        VNone \<Rightarrow> Some ''None''
      | VBool b \<Rightarrow> Some (if b then ''True'' else ''False'')
      | VInt i \<Rightarrow> Some (if i < 0 then ''-'' @ decimal (nat (- i)) else decimal (nat i))
      | VStr t \<Rightarrow> Some t
      | VFunction name ps body \<Rightarrow> Some (''<function '' @ name @ ''>'')
      | VLambda ps body e \<Rightarrow> Some (''<lambda ('' @ decimal (length ps) @ '' params)>'')
      | _ \<Rightarrow> None)"

text \<open>\<open>left + right\<close> of the host: numbers, text with text, array with array.\<close>

definition py_add :: "val \<Rightarrow> val \<Rightarrow> Interpreter \<Rightarrow> outcome \<times> Interpreter" where
  "py_add l r s =
     (case (to_num l, to_num r) of
        (Some a, Some b) \<Rightarrow> (Value (num_arith (+) (+) a b), s)
      | _ \<Rightarrow>
        (case (l, r) of
           (VStr a, VStr b) \<Rightarrow> (Value (VStr (a @ b)), s)
         | (VList a, VList b) \<Rightarrow>
             (case (list_at s a, list_at s b) of
                (Some xs, Some ys) \<Rightarrow> new_list (xs @ ys) s
              | _ \<Rightarrow> (Unmodelled, s))
         | _ \<Rightarrow> (HostException TypeError, s)))"

definition py_sub :: "val \<Rightarrow> val \<Rightarrow> Interpreter \<Rightarrow> outcome \<times> Interpreter" where
  "py_sub l r s =
     (case (to_num l, to_num r) of
        (Some a, Some b) \<Rightarrow> (Value (num_arith (-) (-) a b), s)
      | _ \<Rightarrow> (HostException TypeError, s))"

definition py_mul :: "val \<Rightarrow> val \<Rightarrow> Interpreter \<Rightarrow> outcome \<times> Interpreter" where
  "py_mul l r s =
     (case (to_num l, to_num r) of
        (Some a, Some b) \<Rightarrow> (Value (num_arith (*) (*) a b), s)
      | _ \<Rightarrow>
        (case (l, as_int r, as_int l, r) of
           (VStr t, Some n, _, _) \<Rightarrow> (Value (VStr (concat (replicate (nat n) t))), s)
         | (_, _, Some n, VStr t) \<Rightarrow> (Value (VStr (concat (replicate (nat n) t))), s)
         | (VList a, Some n, _, _) \<Rightarrow>
             (case list_at s a of
                Some xs \<Rightarrow> new_list (concat (replicate (nat n) xs)) s
              | None \<Rightarrow> (Unmodelled, s))
         | (_, _, Some n, VList a) \<Rightarrow>
             (case list_at s a of
                Some xs \<Rightarrow> new_list (concat (replicate (nat n) xs)) s
              | None \<Rightarrow> (Unmodelled, s))
         | _ \<Rightarrow> (HostException TypeError, s)))"

text \<open>\<open>right == 0\<close> of the host, the test that guards the two divisions.\<close>

definition equals_zero :: "val \<Rightarrow> bool" where
  "equals_zero v = (case to_num v of Some n \<Rightarrow> num_real n = 0 | None \<Rightarrow> False)"

definition py_truediv :: "val \<Rightarrow> val \<Rightarrow> Interpreter \<Rightarrow> outcome \<times> Interpreter" where
  "py_truediv l r s =
     (case (to_num l, to_num r) of
        (Some a, Some b) \<Rightarrow>
          if num_real b = 0 then (HostException ZeroDivisionError, s)
          else (Value (VFloat (num_real a / num_real b)), s)
      | _ \<Rightarrow> (HostException TypeError, s))"

text \<open>
  \<open>left % right\<close> of the host. A zero divisor raises the host's \<open>ZeroDivisionError\<close>.
  With text on the left, \<open>%\<close> is Python's string formatting, which is not modelled.
\<close>

definition py_mod :: "val \<Rightarrow> val \<Rightarrow> Interpreter \<Rightarrow> outcome \<times> Interpreter" where
  "py_mod l r s =
     (case (to_num l, to_num r) of
        (Some a, Some b) \<Rightarrow>
          if num_real b = 0 then (HostException ZeroDivisionError, s)
          else (Value (num_arith (mod) (\<lambda>x y. x - y * of_int \<lfloor>x / y\<rfloor>) a b), s)
      | _ \<Rightarrow>
        (case l of
           VStr t \<Rightarrow> (Unmodelled, s)
         | _ \<Rightarrow> (HostException TypeError, s)))"

text \<open>\<open>left ** right\<close> of the host on integers; with a float operand it is not modelled.\<close>

definition py_pow :: "val \<Rightarrow> val \<Rightarrow> Interpreter \<Rightarrow> outcome \<times> Interpreter" where
  "py_pow l r s =
     (case (to_num l, to_num r) of
        (Some (PInt a), Some (PInt b)) \<Rightarrow>
          if 0 \<le> b then (Value (VInt (a ^ nat b)), s)
          else if a = 0 then (HostException ZeroDivisionError, s)
          else (Value (VFloat (1 / of_int (a ^ nat (- b)))), s)
      | (Some a, Some b) \<Rightarrow> (Unmodelled, s)
      | _ \<Rightarrow> (HostException TypeError, s))"

text \<open>
  \<open>left == right\<close> of the host. Comparing two arrays (element by element) or two
  function objects (by identity) is not modelled.
\<close>

definition is_callable :: "val \<Rightarrow> bool" where
  "is_callable v = (case v of VFunction n ps b \<Rightarrow> True | VLambda ps b e \<Rightarrow> True | _ \<Rightarrow> False)"

definition py_eq :: "val \<Rightarrow> val \<Rightarrow> bool option" where
  "py_eq l r =
     (case (to_num l, to_num r) of
        (Some a, Some b) \<Rightarrow> Some (num_real a = num_real b)
      | _ \<Rightarrow>
        (case (l, r) of
           (VStr a, VStr b) \<Rightarrow> Some (a = b)
         | (VNone, VNone) \<Rightarrow> Some True
         | (VList a, VList b) \<Rightarrow> None
         | _ \<Rightarrow> if is_callable l \<and> is_callable r then None else Some False))"

fun str_less :: "string \<Rightarrow> string \<Rightarrow> bool" where
  "str_less [] [] = False"
| "str_less [] (d # ds) = True"
| "str_less (c # cs) [] = False"
| "str_less (c # cs) (d # ds) =
     (code_point c < code_point d \<or> (c = d \<and> str_less cs ds))"

text \<open>\<open>left < right\<close> and \<open>left <= right\<close> of the host; the other two swap the operands.\<close>

definition py_less :: "bool \<Rightarrow> val \<Rightarrow> val \<Rightarrow> outcome" where
  "py_less or_equal l r =
     (case (to_num l, to_num r) of
        (Some a, Some b) \<Rightarrow>
          Value (VBool (if or_equal then num_real a \<le> num_real b else num_real a < num_real b))
      | _ \<Rightarrow>
        (case (l, r) of
           (VStr a, VStr b) \<Rightarrow> Value (VBool (if or_equal then \<not> str_less b a else str_less a b))
         | (VList a, VList b) \<Rightarrow> Unmodelled
         | _ \<Rightarrow> HostException TypeError))"

definition is_str :: "val \<Rightarrow> bool" where
  "is_str v = (case v of VStr t \<Rightarrow> True | _ \<Rightarrow> False)"

text \<open>\<open>Interpreter.eval_binary_op\<close>, once both operands are evaluated.\<close>

definition binary_op :: "TokenType \<Rightarrow> val \<Rightarrow> val \<Rightarrow> Interpreter \<Rightarrow> outcome \<times> Interpreter" where
  "binary_op op left right s =
     (if op = PLUS then
        (if is_str left \<or> is_str right then
           (case (py_str left, py_str right) of
              (Some a, Some b) \<Rightarrow> (Value (VStr (a @ b)), s)
            | _ \<Rightarrow> (Unmodelled, s))
         else py_add left right s)
      else if op = MINUS then py_sub left right s
      else if op = MULTIPLY then py_mul left right s
      else if op = DIVIDE then
        (if equals_zero right then (runtime_error DivisionByZero, s)
         else py_truediv left right s)
      else if op = MODULO then py_mod left right s
      else if op = POWER then py_pow left right s
      else if op = EQUAL then
        (case py_eq left right of Some b \<Rightarrow> (Value (VBool b), s) | None \<Rightarrow> (Unmodelled, s))
      else if op = NOT_EQUAL then
        (case py_eq left right of Some b \<Rightarrow> (Value (VBool (\<not> b)), s) | None \<Rightarrow> (Unmodelled, s))
      else if op = LESS then (py_less False left right, s)
      else if op = GREATER then (py_less False right left, s)
      else if op = LESS_EQUAL then (py_less True left right, s)
      else if op = GREATER_EQUAL then (py_less True right left, s)
      else if op = AND then (Value (VBool (is_truthy s left \<and> is_truthy s right)), s)
      else if op = OR then (Value (VBool (is_truthy s left \<or> is_truthy s right)), s)
      else (runtime_error (UnknownBinaryOperator op), s))"

text \<open>\<open>Interpreter.eval_unary_op\<close>, once the operand is evaluated.\<close>

definition unary_op :: "TokenType \<Rightarrow> val \<Rightarrow> Interpreter \<Rightarrow> outcome" where
  "unary_op op operand s =
     (if op = MINUS then
        (case to_num operand of
           Some (PInt i) \<Rightarrow> Value (VInt (- i))
         | Some (PFloat x) \<Rightarrow> Value (VFloat (- x))
         | None \<Rightarrow> HostException TypeError)
      else if op = NOT then Value (VBool (\<not> is_truthy s operand))
      else runtime_error (UnknownUnaryOperator op))"

text \<open>
  The arithmetic of a compound assignment: the host's operator applied to the
  variable's value and the evaluated operand, with the interpreter's zero test before
  the division only.
\<close>

definition compound_op :: "TokenType \<Rightarrow> val \<Rightarrow> val \<Rightarrow> Interpreter \<Rightarrow> outcome \<times> Interpreter" where
  "compound_op op current_value compound_value s =
     (if op = PLUS then py_add current_value compound_value s
      else if op = MINUS then py_sub current_value compound_value s
      else if op = MULTIPLY then py_mul current_value compound_value s
      else if op = DIVIDE then
        (if equals_zero compound_value then (runtime_error DivisionByZero, s)
         else py_truediv current_value compound_value s)
      else if op = MODULO then py_mod current_value compound_value s
      else if op = POWER then py_pow current_value compound_value s
      else (runtime_error (UnknownCompoundOperator op), s))"

subsection \<open>Indexing\<close>

text \<open>\<open>container[key]\<close> of the host on a sequence of length \<open>n\<close>: the slot, or \<open>IndexError\<close>.\<close>

definition py_index :: "nat \<Rightarrow> int \<Rightarrow> nat option" where
  "py_index n key =
     (if 0 \<le> key \<and> key < int n then Some (nat key)
      else if key < 0 \<and> - int n \<le> key then Some (nat (int n + key))
      else None)"

text \<open>
  The interpreter's index normalisation, as written in the \<open>IndexAccessNode\<close> and
  \<open>IndexAssignNode\<close> branches: the type test, the negative branch, and the one-based
  branch with its own check of \<open>zero_based_index < 0\<close>.
\<close>

definition normalize_index :: "nat \<Rightarrow> val \<Rightarrow> message + nat" where
  "normalize_index n key =
     (case as_int key of
        None \<Rightarrow> Inl (IndexMustBeInteger key)
      | Some i \<Rightarrow>
          if i < 0 then
            (case py_index n i of None \<Rightarrow> Inl (IndexOutOfRange key n) | Some j \<Rightarrow> Inr j)
          else if i - 1 < 0 then Inl (IndexInvalid key)
          else
            (case py_index n (i - 1) of None \<Rightarrow> Inl (IndexOutOfRange key n) | Some j \<Rightarrow> Inr j))"

definition index_access :: "val \<Rightarrow> val \<Rightarrow> Interpreter \<Rightarrow> outcome" where
  "index_access container_value key s =
     (case container_value of
        VList a \<Rightarrow>
          (case list_at s a of
             None \<Rightarrow> Unmodelled
           | Some xs \<Rightarrow>
               (case normalize_index (length xs) key of
                  Inl m \<Rightarrow> runtime_error m
                | Inr j \<Rightarrow> Value (xs ! j)))
      | VStr t \<Rightarrow>
          (case normalize_index (length t) key of
             Inl m \<Rightarrow> runtime_error m
           | Inr j \<Rightarrow> Value (VStr [t ! j]))
      | _ \<Rightarrow> runtime_error (CannotIndex container_value))"

text \<open>The loop \<open>for key in path[:-1]\<close> of an index assignment.\<close>

fun navigate :: "Interpreter \<Rightarrow> val \<Rightarrow> val list \<Rightarrow> outcome" where
  "navigate s target [] = Value target"
| "navigate s target (key # keys) =
     (case target of
        VList a \<Rightarrow>
          (case list_at s a of
             None \<Rightarrow> Unmodelled
           | Some xs \<Rightarrow>
               (case normalize_index (length xs) key of
                  Inl m \<Rightarrow> runtime_error m
                | Inr j \<Rightarrow> navigate s (xs ! j) keys))
      | _ \<Rightarrow> runtime_error (CannotIndex target))"

definition assign_item :: "val \<Rightarrow> val \<Rightarrow> val \<Rightarrow> Interpreter \<Rightarrow> outcome \<times> Interpreter" where
  "assign_item target key new_value s =
     (case target of
        VList a \<Rightarrow>
          (case list_at s a of
             None \<Rightarrow> (Unmodelled, s)
           | Some xs \<Rightarrow>
               (case normalize_index (length xs) key of
                  Inl m \<Rightarrow> (runtime_error m, s)
                | Inr j \<Rightarrow> (Value new_value, store_list a (xs[j := new_value]) s)))
      | _ \<Rightarrow> (runtime_error (CannotAssignToIndex target), s))"

text \<open>
  The assignment once the variable is resolved. The source treats a path of one key
  apart, with the same steps and messages as the general case below it; an empty
  path reaches \<open>path[-1]\<close>, which raises the host's \<open>IndexError\<close>.
\<close>

definition index_assign :: "val \<Rightarrow> val list \<Rightarrow> val \<Rightarrow> Interpreter \<Rightarrow> outcome \<times> Interpreter" where
  "index_assign target path new_value s =
     (if path = [] then (HostException IndexError, s)
      else
        (case navigate s target (butlast path) of
           Value t \<Rightarrow> assign_item t (last path) new_value s
         | out \<Rightarrow> (out, s)))"

subsection \<open>Builtin operations\<close>

text \<open>
  The builtins that resolve a bare variable in first position to its bound container,
  after the test of the argument count and before any argument is evaluated, with
  the number of arguments each takes.
\<close>

definition mutator_arity :: "string \<Rightarrow> nat option" where
  "mutator_arity name =
     map_of
       [(''set_add'', 2), (''set_remove'', 2), (''set_discard'', 2), (''set_clear'', 1),
        (''set'', 3), (''delete_key'', 2), (''clear_dict'', 1), (''update'', 2),
        (''push'', 2), (''pop'', 1), (''shift'', 1), (''unshift'', 2), (''insert'', 3),
        (''remove'', 2), (''clear'', 1), (''reverse'', 1), (''sort'', 1)] name"

text \<open>The other builtin names; beyond \<open>len\<close> they are not modelled.\<close>

definition other_builtins :: "string list" where
  "other_builtins =
     [''set_contains'', ''set_union'', ''set_intersection'', ''set_difference'',
      ''set_symmetric_difference'', ''set_is_subset'', ''set_is_superset'',
      ''set_is_disjoint'', ''set_copy'', ''set_to_array'', ''array_to_set'', ''keys'',
      ''values'', ''items'', ''has_key'', ''get'', ''copy_dict'', ''merge'', ''contains'',
      ''index_of'', ''slice'', ''join'', ''sum'', ''min'', ''max'']"

definition int_of_val :: "val \<Rightarrow> int option" where
  "int_of_val v = (case v of VInt i \<Rightarrow> Some i | _ \<Rightarrow> None)"

text \<open>
  What an array builtin does to the elements \<open>xs\<close> of its array, given the values of
  its other arguments: the new elements, or how it ends otherwise. Sorting is modelled
  on arrays of integers only.
\<close>

definition array_mutation :: "string \<Rightarrow> val list \<Rightarrow> val list \<Rightarrow> outcome + val list" where
  "array_mutation name xs rest =
     (if name = ''push'' then Inr (xs @ [rest ! 0])
      else if name = ''pop'' then
        (if xs = [] then Inl (runtime_error (FromEmptyArray name)) else Inr (butlast xs))
      else if name = ''shift'' then
        (if xs = [] then Inl (runtime_error (FromEmptyArray name)) else Inr (tl xs))
      else if name = ''unshift'' then Inr (rest ! 0 # xs)
      else if name = ''insert'' then
        (case as_int (rest ! 0) of
           None \<Rightarrow> Inl (runtime_error (BuiltinIndexMustBeInteger name))
         | Some i \<Rightarrow>
             if i < 0 then
               (let j = nat (int (length xs) + i) in Inr (take j xs @ [rest ! 1] @ drop j xs))
             else if i - 1 < 0 then Inl (runtime_error (IndexInvalid (rest ! 0)))
             else (let j = nat (i - 1) in Inr (take j xs @ [rest ! 1] @ drop j xs)))
      else if name = ''remove'' then
        (case as_int (rest ! 0) of
           None \<Rightarrow> Inl (runtime_error (BuiltinIndexMustBeInteger name))
         | Some i \<Rightarrow>
             if i < 0 then
               (case py_index (length xs) i of
                  None \<Rightarrow> Inl (runtime_error (BuiltinIndexOutOfRange (rest ! 0)))
                | Some j \<Rightarrow> Inr (take j xs @ drop (Suc j) xs))
             else if i - 1 < 0 \<or> int (length xs) \<le> i - 1 then
               Inl (runtime_error (BuiltinIndexOutOfRange (rest ! 0)))
             else (let j = nat (i - 1) in Inr (take j xs @ drop (Suc j) xs)))
      else if name = ''clear'' then Inr []
      else if name = ''reverse'' then Inr (rev xs)
      else if name = ''sort'' then
        (case those (map int_of_val xs) of
           Some is \<Rightarrow> Inr (map VInt (sort is))
         | None \<Rightarrow> Inl Unmodelled)
      else Inl Unmodelled)"

definition array_builtins :: "string list" where
  "array_builtins =
     [''push'', ''pop'', ''shift'', ''unshift'', ''insert'', ''remove'', ''clear'',
      ''reverse'', ''sort'']"

text \<open>
  A mutating builtin once its container and its other arguments are evaluated: the
  test of the container's kind, then the operation in place; the builtin returns the
  container. No value of the embedding is a set or a dictionary, so their builtins
  end at the test of the kind.
\<close>

definition apply_mutator :: "string \<Rightarrow> val \<Rightarrow> val list \<Rightarrow> Interpreter \<Rightarrow> outcome \<times> Interpreter" where
  "apply_mutator name target rest s =
     (if name \<in> set array_builtins then
        (case target of
           VList a \<Rightarrow>
             (case list_at s a of
                None \<Rightarrow> (Unmodelled, s)
              | Some xs \<Rightarrow>
                  (case array_mutation name xs rest of
                     Inl out \<Rightarrow> (out, s)
                   | Inr ys \<Rightarrow> (Value (VList a), store_list a ys s)))
         | _ \<Rightarrow> (runtime_error (BuiltinRequires name), s))
      else (runtime_error (BuiltinRequires name), s))"

definition builtin_len :: "val \<Rightarrow> Interpreter \<Rightarrow> outcome" where
  "builtin_len v s =
     (case v of
        VStr t \<Rightarrow> Value (VInt (int (length t)))
      | VList a \<Rightarrow>
          (case list_at s a of
             None \<Rightarrow> Unmodelled
           | Some xs \<Rightarrow> Value (VInt (int (length xs))))
      | _ \<Rightarrow> runtime_error (HasNoLen v))"

text \<open>The text a mutating builtin passes to \<open>VariableNotDefinedError\<close>.\<close>

definition not_defined_text :: "string \<Rightarrow> string" where
  "not_defined_text var_name = ''Variable '' @ [CHR 0x27] @ var_name @ [CHR 0x27] @ '' not defined''"

subsection \<open>Ranges and destructuring\<close>

text \<open>\<open>int(v)\<close> of the host; parsing a text is not modelled.\<close>

definition int_conv :: "val \<Rightarrow> outcome + int" where
  "int_conv v =
     (case v of
        VInt i \<Rightarrow> Inr i
      | VBool b \<Rightarrow> Inr (if b then 1 else 0)
      | VFloat x \<Rightarrow> Inr (if 0 \<le> x then \<lfloor>x\<rfloor> else \<lceil>x\<rceil>)
      | VStr t \<Rightarrow> Inl Unmodelled
      | _ \<Rightarrow> Inl (HostException TypeError))"

text \<open>
  \<open>list(range(a, b, step))\<close> of the host, for a step other than zero. The range has
  \<open>range_length a b step\<close> elements. The host builds the list only when that number
  fits the size of a host object: beyond \<open>sys.maxsize\<close> (\<open>2^63 - 1\<close> on a 64-bit host)
  \<open>list\<close> raises \<open>OverflowError\<close>. Below that limit the embedding builds the list; the
  memory the host has for it is not part of the embedding.
\<close>

definition sys_maxsize :: nat where
  "sys_maxsize = 2 ^ 63 - 1"

definition range_length :: "int \<Rightarrow> int \<Rightarrow> int \<Rightarrow> nat" where
  "range_length a b step =
     (if 0 < step then nat ((b - a + step - 1) div step)
      else nat ((a - b - step - 1) div (- step)))"

definition py_range :: "int \<Rightarrow> int \<Rightarrow> int \<Rightarrow> int list" where
  "py_range a b step = map (\<lambda>i. a + int i * step) [0 ..< range_length a b step]"

text \<open>
  The \<open>RangeNode\<close> branch once its three parts are evaluated: a stop that is \<open>None\<close>
  makes the start the stop, then \<open>list(range(int(start), int(stop) + 1, int(step)))\<close>.
\<close>

definition make_range :: "val \<Rightarrow> val \<Rightarrow> val \<Rightarrow> Interpreter \<Rightarrow> outcome \<times> Interpreter" where
  "make_range start0 stop0 step s =
     (let stop = (if stop0 = VNone then start0 else stop0);
          start = (if stop0 = VNone then VInt 1 else start0)
      in case int_conv start of
           Inl out \<Rightarrow> (out, s)
         | Inr a \<Rightarrow>
             (case int_conv stop of
                Inl out \<Rightarrow> (out, s)
              | Inr b \<Rightarrow>
                  (case int_conv step of
                     Inl out \<Rightarrow> (out, s)
                   | Inr c \<Rightarrow>
                       if c = 0 then (HostException ValueError, s)
                       else if sys_maxsize < range_length a (b + 1) c
                       then (HostException OverflowError, s)
                       else new_list (map VInt (py_range a (b + 1) c)) s)))"

definition assign_names :: "string list \<Rightarrow> val list \<Rightarrow> (string \<Rightarrow> val option) \<Rightarrow> (string \<Rightarrow> val option)" where
  "assign_names names vs m = fold (\<lambda>(n, v) m. m(n \<mapsto> v)) (zip names vs) m"

definition destructure :: "string list \<Rightarrow> bool \<Rightarrow> val \<Rightarrow> Interpreter \<Rightarrow> outcome \<times> Interpreter" where
  "destructure var_names constant v s =
     (case (case v of
              VList a \<Rightarrow> (case list_at s a of None \<Rightarrow> Inl Unmodelled | Some xs \<Rightarrow> Inr xs)
            | VStr t \<Rightarrow> Inr (map (\<lambda>c. VStr [c]) t)
            | _ \<Rightarrow> Inl (runtime_error (CannotDestructure v))) of
        Inl out \<Rightarrow> (out, s)
      | Inr value_list \<Rightarrow>
          if length value_list < length var_names then
            (runtime_error (NotEnoughValues (length var_names) (length value_list)), s)
          else
            new_list value_list
              (s\<lparr>variables := assign_names var_names value_list (variables s),
                 constants := (if constant then constants s \<union> set var_names else constants s)\<rparr>))"

subsection \<open>Loops and calls\<close>

text \<open>
  After the body of a loop: it goes on after a value or a \<open>ContinueException\<close>, and
  the loop's result is the value of the last body that ended with one.
\<close>

definition goes_on :: "outcome \<Rightarrow> bool" where
  "goes_on out = (case out of Value v \<Rightarrow> True | ContinueException \<Rightarrow> True | _ \<Rightarrow> False)"

definition loop_result :: "outcome \<Rightarrow> val \<Rightarrow> val" where
  "loop_result out result = (case out of Value v \<Rightarrow> v | _ \<Rightarrow> result)"

text \<open>
  The \<open>finally\<close> of the for loop: the loop variable gets back the binding it had in
  \<open>before\<close> (the state when \<open>had_var\<close> and \<open>old_var\<close> were read), or is removed.
\<close>

definition restore_loop_var :: "string \<Rightarrow> Interpreter \<Rightarrow> Interpreter \<Rightarrow> Interpreter" where
  "restore_loop_var var_name before s =
     s\<lparr>variables := (variables s)(var_name := variables before var_name)\<rparr>"

text \<open>What \<open>call\<close> returns: a \<open>ReturnException\<close> it catches becomes the call's value.\<close>

definition call_result :: "outcome \<Rightarrow> outcome" where
  "call_result out = (case out of ReturnException v \<Rightarrow> Value v | _ \<Rightarrow> out)"

text \<open>\<open>isinstance(n, VarAccessNode)\<close> and \<open>isinstance(n, IndexAccessNode)\<close>, with the fields.\<close>

definition var_access_name :: "node \<Rightarrow> string option" where
  "var_access_name n = (case n of VarAccessNode name \<Rightarrow> Some name | _ \<Rightarrow> None)"

definition index_access_fields :: "node \<Rightarrow> (node \<times> node) option" where
  "index_access_fields n = (case n of IndexAccessNode c key \<Rightarrow> Some (c, key) | _ \<Rightarrow> None)"

text \<open>\<open>isinstance(func, (PuffingFunction, PuffingLambda))\<close> on what a name is bound to.\<close>

definition user_callable :: "val option \<Rightarrow> val option" where
  "user_callable b =
     (case b of
        Some f \<Rightarrow> if is_callable f then Some f else None
      | None \<Rightarrow> None)"

section \<open>The evaluator (Interpreter.eval and the two call methods)\<close>

text \<open>
  \<open>Interpreter.eval\<close> calls itself on the children of a node, directly and through
  the two \<open>call\<close> methods and \<open>eval_function_call\<close>. The embedding writes every part of
  it over the evaluator \<open>ev\<close> it uses for those inner calls, and closes the recursion
  in \<open>eval\<close> at the end: \<open>eval (Suc d) k\<close> evaluates a node with \<open>eval d k\<close> for the
  inner calls, and \<open>eval 0 k\<close> is the host refusing a deeper call with
  \<open>RecursionError\<close>, an exception that no handler of interpreter.py catches (the
  \<open>finally\<close> blocks run). So \<open>d\<close> is the depth of nested \<open>eval\<close> calls the host still
  allows; the iterations of a loop and the elements of a list stay at one depth. The
  budget \<open>k\<close> bounds the iterations of each loop, so that the functions are total; a
  loop that uses it up ends with \<open>Timeout\<close>.
\<close>

type_synonym evaluator = "node \<Rightarrow> Interpreter \<Rightarrow> outcome \<times> Interpreter"

text \<open>\<open>self.eval(n) if n else default\<close>.\<close>

definition eval_optional :: "evaluator \<Rightarrow> node option \<Rightarrow> val \<Rightarrow> Interpreter \<Rightarrow> outcome \<times> Interpreter" where
  "eval_optional ev n dflt s = (case n of None \<Rightarrow> (Value dflt, s) | Some m \<Rightarrow> ev m s)"

text \<open>\<open>[self.eval(arg) for arg in nodes]\<close>: the values, or how the first failing one ended.\<close>

fun eval_list :: "evaluator \<Rightarrow> node list \<Rightarrow> Interpreter \<Rightarrow> (outcome + val list) \<times> Interpreter" where
  "eval_list ev [] s = (Inr [], s)"
| "eval_list ev (n # ns) s =
     (case ev n s of
        (Value v, s1) \<Rightarrow>
          (case eval_list ev ns s1 of
             (Inr vs, s2) \<Rightarrow> (Inr (v # vs), s2)
           | r \<Rightarrow> r)
      | (out, s1) \<Rightarrow> (Inl out, s1))"

text \<open>The statements of a block, in order; \<open>result\<close> is the value of the last one.\<close>

fun eval_block :: "evaluator \<Rightarrow> node list \<Rightarrow> val \<Rightarrow> Interpreter \<Rightarrow> outcome \<times> Interpreter" where
  "eval_block ev [] result s = (Value result, s)"
| "eval_block ev (stmt # stmts) result s =
     (case ev stmt s of
        (Value v, s1) \<Rightarrow> eval_block ev stmts v s1
      | r \<Rightarrow> r)"

text \<open>The \<open>elif\<close> blocks of a conditional whose condition was false, then the \<open>else\<close>.\<close>

fun eval_elifs :: "evaluator \<Rightarrow> (node \<times> node) list \<Rightarrow> node option \<Rightarrow> Interpreter \<Rightarrow> outcome \<times> Interpreter" where
  "eval_elifs ev [] false_block s =
     (case false_block of
        None \<Rightarrow> (Value VNone, s)
      | Some block \<Rightarrow> ev block s)"
| "eval_elifs ev ((elif_condition, elif_block) # elif_blocks) false_block s =
     (case ev elif_condition s of
        (Value condition, s1) \<Rightarrow>
          if is_truthy s1 condition then ev elif_block s1
          else eval_elifs ev elif_blocks false_block s1
      | r \<Rightarrow> r)"

text \<open>
  The loop of an index assignment that walks down the chain of \<open>IndexAccessNode\<close>s,
  evaluating each key and putting it in front of the path.
\<close>

fun eval_path :: "evaluator \<Rightarrow> node \<Rightarrow> val list \<Rightarrow> Interpreter \<Rightarrow> (outcome + val list \<times> node) \<times> Interpreter" where
  "eval_path ev (IndexAccessNode container_node key_node) path s =
     (case ev key_node s of
        (Value key, s1) \<Rightarrow> eval_path ev container_node (key # path) s1
      | (out, s1) \<Rightarrow> (Inl out, s1))"
| "eval_path ev current path s = (Inr (path, current), s)"

text \<open>
  The for loop over an array. Python's list iterator reads the list at each step, so
  the loop sees what its body appends to the array it runs over: \<open>i\<close> is the
  iterator's position and the elements are read from the heap each time.
\<close>

fun for_list :: "evaluator \<Rightarrow> nat \<Rightarrow> string \<Rightarrow> node \<Rightarrow> nat \<Rightarrow> nat \<Rightarrow> val \<Rightarrow> Interpreter \<Rightarrow> outcome \<times> Interpreter" where
  "for_list ev 0 var_name body a i result s = (Timeout, s)"
| "for_list ev (Suc k) var_name body a i result s =
     (case list_at s a of
        None \<Rightarrow> (Unmodelled, s)
      | Some xs \<Rightarrow>
          if length xs \<le> i then (Value result, s)
          else
            (case ev body (s\<lparr>variables := (variables s)(var_name \<mapsto> xs ! i)\<rparr>) of
               (out, s1) \<Rightarrow>
                 if goes_on out
                 then for_list ev k var_name body a (Suc i) (loop_result out result) s1
                 else if out = BreakException then (Value result, s1)
                 else (out, s1)))"

text \<open>The for loop over a text: one character at a time.\<close>

fun for_str :: "evaluator \<Rightarrow> string \<Rightarrow> node \<Rightarrow> string \<Rightarrow> val \<Rightarrow> Interpreter \<Rightarrow> outcome \<times> Interpreter" where
  "for_str ev var_name body [] result s = (Value result, s)"
| "for_str ev var_name body (c # cs) result s =
     (case ev body (s\<lparr>variables := (variables s)(var_name \<mapsto> VStr [c])\<rparr>) of
        (out, s1) \<Rightarrow>
          if goes_on out
          then for_str ev var_name body cs (loop_result out result) s1
          else if out = BreakException then (Value result, s1)
          else (out, s1))"

text \<open>
  The \<open>ForLoopNode\<close> branch: the iterable, the test that it can be iterated, the
  loop, and the \<open>finally\<close> that restores the loop variable however the loop ended.
\<close>

definition eval_for :: "evaluator \<Rightarrow> nat \<Rightarrow> string \<Rightarrow> node \<Rightarrow> node \<Rightarrow> Interpreter \<Rightarrow> outcome \<times> Interpreter" where
  "eval_for ev k var_name iterable_node body s =
     (case ev iterable_node s of
        (Value iterable, s1) \<Rightarrow>
          (case iterable of
             VList a \<Rightarrow>
               (case for_list ev k var_name body a 0 VNone s1 of
                  (out, s2) \<Rightarrow> (out, restore_loop_var var_name s1 s2))
           | VStr t \<Rightarrow>
               (case for_str ev var_name body t VNone s1 of
                  (out, s2) \<Rightarrow> (out, restore_loop_var var_name s1 s2))
           | _ \<Rightarrow> (runtime_error ForLoopRequiresIterable, s1))
      | r \<Rightarrow> r)"

text \<open>
  The while loop. A \<open>BreakException\<close> from the condition is inside the outer \<open>try\<close>
  and ends the loop; a \<open>ContinueException\<close> from the condition is outside the inner
  one and leaves the loop as it is.
\<close>

fun while_loop :: "evaluator \<Rightarrow> nat \<Rightarrow> node \<Rightarrow> node \<Rightarrow> val \<Rightarrow> Interpreter \<Rightarrow> outcome \<times> Interpreter" where
  "while_loop ev 0 condition_node body result s = (Timeout, s)"
| "while_loop ev (Suc k) condition_node body result s =
     (case ev condition_node s of
        (Value condition, s1) \<Rightarrow>
          if is_truthy s1 condition then
            (case ev body s1 of
               (out, s2) \<Rightarrow>
                 if goes_on out
                 then while_loop ev k condition_node body (loop_result out result) s2
                 else if out = BreakException then (Value result, s2)
                 else (out, s2))
          else (Value result, s1)
      | (BreakException, s1) \<Rightarrow> (Value result, s1)
      | r \<Rightarrow> r)"

fun do_while_loop :: "evaluator \<Rightarrow> nat \<Rightarrow> node \<Rightarrow> node \<Rightarrow> val \<Rightarrow> Interpreter \<Rightarrow> outcome \<times> Interpreter" where
  "do_while_loop ev 0 body condition_node result s = (Timeout, s)"
| "do_while_loop ev (Suc k) body condition_node result s =
     (case ev body s of
        (out, s1) \<Rightarrow>
          if goes_on out then
            (case ev condition_node s1 of
               (Value condition, s2) \<Rightarrow>
                 if \<not> is_truthy s2 condition then (Value (loop_result out result), s2)
                 else do_while_loop ev k body condition_node (loop_result out result) s2
             | (BreakException, s2) \<Rightarrow> (Value (loop_result out result), s2)
             | r \<Rightarrow> r)
          else if out = BreakException then (Value result, s1)
          else (out, s1))"

text \<open>
  \<open>PuffingFunction.call\<close> and \<open>PuffingLambda.call\<close>: the test of the argument count,
  the copy of the caller's variables, the parameters bound in order, the body, the
  \<open>ReturnException\<close> caught, and the \<open>finally\<close> that puts the saved variables back
  however the body ended. Both branches of \<open>is_expression\<close> evaluate the body alike.
\<close>

definition call :: "evaluator \<Rightarrow> val \<Rightarrow> val list \<Rightarrow> Interpreter \<Rightarrow> outcome \<times> Interpreter" where
  "call ev func args s =
     (case func of
        VFunction name params body \<Rightarrow>
          if length args \<noteq> length params
          then (runtime_error (FunctionArgumentCount name (length params) (length args)), s)
          else
            (let saved_vars = variables s in
             case ev body (s\<lparr>variables := assign_names params args (variables s)\<rparr>) of
               (out, s1) \<Rightarrow> (call_result out, s1\<lparr>variables := saved_vars\<rparr>))
      | VLambda params body is_expression \<Rightarrow>
          if length args \<noteq> length params
          then (runtime_error (LambdaArgumentCount (length params) (length args)), s)
          else
            (let saved_vars = variables s in
             case ev body (s\<lparr>variables := assign_names params args (variables s)\<rparr>) of
               (out, s1) \<Rightarrow> (call_result out, s1\<lparr>variables := saved_vars\<rparr>))
      | _ \<Rightarrow> (Unmodelled, s))"

text \<open>
  The builtin part of \<open>Interpreter.eval_function_call\<close>, reached when the name is not
  bound to a function or lambda of the program. A mutating builtin tests its
  argument count, then resolves a bare variable in first position (undefined, then
  constant), then evaluates the other arguments. The embedding has no native
  function, so a name that is bound at the end is bound to something not callable.
\<close>

definition eval_builtin :: "evaluator \<Rightarrow> string \<Rightarrow> node list \<Rightarrow> Interpreter \<Rightarrow> outcome \<times> Interpreter" where
  "eval_builtin ev func_name args s =
     (if func_name = ''len'' then
        (case args of
           [a] \<Rightarrow>
             (case ev a s of
                (Value v, s1) \<Rightarrow> (builtin_len v s1, s1)
              | r \<Rightarrow> r)
         | _ \<Rightarrow> (runtime_error (BuiltinArgumentCount func_name), s))
      else
        (case mutator_arity func_name of
           Some n \<Rightarrow>
             if length args \<noteq> n then (runtime_error (BuiltinArgumentCount func_name), s)
             else
               (case args of
                  [] \<Rightarrow> (Unmodelled, s)
                | container_arg # rest_args \<Rightarrow>
                    (case var_access_name container_arg of
                       Some var_name \<Rightarrow>
                         (case variables s var_name of
                            None \<Rightarrow>
                              (PuffingError (VariableNotDefinedError (not_defined_text var_name)), s)
                          | Some target \<Rightarrow>
                              if var_name \<in> constants s
                              then (runtime_error (CannotModifyConstant var_name), s)
                              else
                                (case eval_list ev rest_args s of
                                   (Inr vs, s1) \<Rightarrow> apply_mutator func_name target vs s1
                                 | (Inl out, s1) \<Rightarrow> (out, s1)))
                     | None \<Rightarrow>
                         (case ev container_arg s of
                            (Value target, s1) \<Rightarrow>
                              (case eval_list ev rest_args s1 of
                                 (Inr vs, s2) \<Rightarrow> apply_mutator func_name target vs s2
                               | (Inl out, s2) \<Rightarrow> (out, s2))
                          | r \<Rightarrow> r)))
         | None \<Rightarrow>
             if func_name \<in> set other_builtins then (Unmodelled, s)
             else if variables s func_name = None
             then (runtime_error (FunctionNotDefined func_name), s)
             else (runtime_error (NotAFunction func_name), s)))"

text \<open>\<open>Interpreter.eval_function_call\<close> for a call by name.\<close>

definition eval_function_call :: "evaluator \<Rightarrow> string \<Rightarrow> node list \<Rightarrow> Interpreter \<Rightarrow> outcome \<times> Interpreter" where
  "eval_function_call ev func_name args s =
     (case user_callable (variables s func_name) of
        Some func \<Rightarrow>
          (case eval_list ev args s of
             (Inr vs, s1) \<Rightarrow> call ev func vs s1
           | (Inl out, s1) \<Rightarrow> (out, s1))
      | None \<Rightarrow> eval_builtin ev func_name args s)"

text \<open>The \<open>IndexAssignNode\<close> branch.\<close>

definition eval_index_assign :: "evaluator \<Rightarrow> node \<Rightarrow> node \<Rightarrow> Interpreter \<Rightarrow> outcome \<times> Interpreter" where
  "eval_index_assign ev left_expr value_node s =
     (case ev value_node s of
        (Value new_value, s1) \<Rightarrow>
          (case eval_path ev left_expr [] s1 of
             (Inl out, s2) \<Rightarrow> (out, s2)
           | (Inr (path, current), s2) \<Rightarrow>
               (case var_access_name current of
                  Some var_name \<Rightarrow>
                    (case variables s2 var_name of
                       None \<Rightarrow> (PuffingError (VariableNotDefinedError var_name), s2)
                     | Some target \<Rightarrow>
                         if var_name \<in> constants s2
                         then (runtime_error (CannotModifyConstant var_name), s2)
                         else index_assign target path new_value s2)
                | None \<Rightarrow> (runtime_error CanOnlyAssignToVariable, s2)))
      | r \<Rightarrow> r)"

text \<open>
  One level of \<open>Interpreter.eval\<close>: the branch of the node's class, with \<open>ev\<close> for
  every inner \<open>self.eval\<close>.
\<close>

fun eval_step :: "evaluator \<Rightarrow> nat \<Rightarrow> node \<Rightarrow> Interpreter \<Rightarrow> outcome \<times> Interpreter" where
  "eval_step ev k (FunctionDefNode name params body) s =
     (Value (VFunction name params body),
      s\<lparr>variables := (variables s)(name \<mapsto> VFunction name params body)\<rparr>)"
| "eval_step ev k (LambdaNode params body is_expression) s =
     (Value (VLambda params body is_expression), s)"
| "eval_step ev k (ReturnNode value_node) s =
     (case eval_optional ev value_node VNone s of
        (Value v, s1) \<Rightarrow> (ReturnException v, s1)
      | r \<Rightarrow> r)"
| "eval_step ev k (NumberNode n) s =
     (case n of NInt i \<Rightarrow> (Value (VInt i), s) | NFloat x \<Rightarrow> (Value (VFloat x), s))"
| "eval_step ev k (StringNode t) s = (Value (VStr t), s)"
| "eval_step ev k (BoolNode b) s = (Value (VBool b), s)"
| "eval_step ev k (ArrayNode elements) s =
     (case eval_list ev elements s of
        (Inr vs, s1) \<Rightarrow> new_list vs s1
      | (Inl out, s1) \<Rightarrow> (out, s1))"
| "eval_step ev k (SetNode elements) s = (Unmodelled, s)"
| "eval_step ev k (DictNode pairs) s = (Unmodelled, s)"
| "eval_step ev k (IndexAccessNode container_node key_node) s =
     (case ev container_node s of
        (Value container_value, s1) \<Rightarrow>
          (case ev key_node s1 of
             (Value key, s2) \<Rightarrow> (index_access container_value key s2, s2)
           | r \<Rightarrow> r)
      | r \<Rightarrow> r)"
| "eval_step ev k (IndexAssignNode left_expr value_node) s =
     eval_index_assign ev left_expr value_node s"
| "eval_step ev k (LibImportNode module_path) s = (Unmodelled, s)"
| "eval_step ev k (VarAssignNode name value_node constant) s =
     (case ev value_node s of
        (Value v, s1) \<Rightarrow>
          (Value v,
           s1\<lparr>variables := (variables s1)(name \<mapsto> v),
              constants := (if constant then insert name (constants s1) else constants s1)\<rparr>)
      | r \<Rightarrow> r)"
| "eval_step ev k (DestructureAssignNode var_names value_node constant) s =
     (case ev value_node s of
        (Value v, s1) \<Rightarrow> destructure var_names constant v s1
      | r \<Rightarrow> r)"
| "eval_step ev k (VarReassignNode name value_node) s =
     (case variables s name of
        None \<Rightarrow> (PuffingError (VariableNotDefinedError name), s)
      | Some current_value \<Rightarrow>
          if name \<in> constants s then (runtime_error (CannotReassignConstant name), s)
          else
            (case ev value_node s of
               (Value v, s1) \<Rightarrow> (Value v, s1\<lparr>variables := (variables s1)(name \<mapsto> v)\<rparr>)
             | r \<Rightarrow> r))"
| "eval_step ev k (CompoundAssignNode name value_node operator) s =
     (case variables s name of
        None \<Rightarrow> (PuffingError (VariableNotDefinedError name), s)
      | Some current_value \<Rightarrow>
          if name \<in> constants s then (runtime_error (CannotReassignConstant name), s)
          else
            (case ev value_node s of
               (Value compound_value, s1) \<Rightarrow>
                 (case compound_op operator current_value compound_value s1 of
                    (Value v, s2) \<Rightarrow> (Value v, s2\<lparr>variables := (variables s2)(name \<mapsto> v)\<rparr>)
                  | r \<Rightarrow> r)
             | r \<Rightarrow> r))"
| "eval_step ev k (IncrementNode name operator prefix) s =
     (case variables s name of
        None \<Rightarrow> (PuffingError (VariableNotDefinedError name), s)
      | Some current_value \<Rightarrow>
          if name \<in> constants s then (runtime_error (CannotModifyConstant name), s)
          else
            (case (if operator = INCREMENT then py_add current_value (VInt 1) s
                   else if operator = DECREMENT then py_sub current_value (VInt 1) s
                   else (runtime_error (UnknownIncrementOperator operator), s)) of
               (Value new_value, s1) \<Rightarrow>
                 (Value (if prefix then new_value else current_value),
                  s1\<lparr>variables := (variables s1)(name \<mapsto> new_value)\<rparr>)
             | r \<Rightarrow> r))"
| "eval_step ev k (VarAccessNode name) s =
     (case variables s name of
        None \<Rightarrow> (PuffingError (VariableNotDefinedError name), s)
      | Some v \<Rightarrow> (Value v, s))"
| "eval_step ev k (RangeNode start_node stop_node step_node) s =
     (case ev start_node s of
        (Value start, s1) \<Rightarrow>
          (case eval_optional ev stop_node VNone s1 of
             (Value stop, s2) \<Rightarrow>
               (case eval_optional ev step_node (VInt 1) s2 of
                  (Value step, s3) \<Rightarrow> make_range start stop step s3
                | r \<Rightarrow> r)
           | r \<Rightarrow> r)
      | r \<Rightarrow> r)"
| "eval_step ev k (LambdaCallNode params body is_expression args) s =
     (case eval_list ev args s of
        (Inr vs, s1) \<Rightarrow> call ev (VLambda params body is_expression) vs s1
      | (Inl out, s1) \<Rightarrow> (out, s1))"
| "eval_step ev k (FunctionCallNode func_name args) s =
     eval_function_call ev func_name args s"
| "eval_step ev k (BinaryOpNode left op right) s =
     (case ev left s of
        (Value l, s1) \<Rightarrow>
          (case ev right s1 of
             (Value r, s2) \<Rightarrow> binary_op op l r s2
           | r \<Rightarrow> r)
      | r \<Rightarrow> r)"
| "eval_step ev k (UnaryOpNode op operand_node) s =
     (case ev operand_node s of
        (Value operand, s1) \<Rightarrow> (unary_op op operand s1, s1)
      | r \<Rightarrow> r)"
| "eval_step ev k (TypeCastNode n target_type) s = (Unmodelled, s)"
| "eval_step ev k (FormatNode n precision) s = (Unmodelled, s)"
| "eval_step ev k (InputNode input_type) s = (Unmodelled, s)"
| "eval_step ev k (PrintNode value_nodes) s = (Unmodelled, s)"
| "eval_step ev k (IfNode condition_node true_block elif_blocks false_block) s =
     (case ev condition_node s of
        (Value condition, s1) \<Rightarrow>
          if is_truthy s1 condition then ev true_block s1
          else eval_elifs ev elif_blocks false_block s1
      | r \<Rightarrow> r)"
| "eval_step ev k (ForLoopNode var_name iterable_node body) s =
     eval_for ev k var_name iterable_node body s"
| "eval_step ev k (WhileLoopNode condition_node body) s =
     while_loop ev k condition_node body VNone s"
| "eval_step ev k (DoWhileLoopNode body condition_node) s =
     do_while_loop ev k body condition_node VNone s"
| "eval_step ev k BreakNode s = (BreakException, s)"
| "eval_step ev k ContinueNode s = (ContinueException, s)"
| "eval_step ev k (BlockNode statements) s = eval_block ev statements VNone s"

text \<open>\<open>Interpreter.eval\<close>, with the depth \<open>d\<close> the host allows and the loop budget \<open>k\<close>.\<close>

fun eval :: "nat \<Rightarrow> nat \<Rightarrow> node \<Rightarrow> Interpreter \<Rightarrow> outcome \<times> Interpreter" where
  "eval 0 k node s = (HostException RecursionError, s)"
| "eval (Suc d) k node s = eval_step (eval d k) k node s"

text \<open>\<open>Interpreter.run\<close>.\<close>

definition run :: "nat \<Rightarrow> nat \<Rightarrow> node \<Rightarrow> Interpreter \<Rightarrow> outcome \<times> Interpreter" where
  "run d k node s = eval d k node s"

section \<open>Expressions\<close>

text \<open>
  The nodes that \<open>Parser.expr\<close> returns: literals, container literals, index reads,
  variable reads, operators, casts, formats, input, ranges, calls and lambdas, over
  expressions. The body of a lambda is a block of any statements.
\<close>

fun is_expr :: "node \<Rightarrow> bool" where
  "is_expr (NumberNode n) = True"
| "is_expr (StringNode t) = True"
| "is_expr (BoolNode b) = True"
| "is_expr (ArrayNode elements) = (\<forall>e \<in> set elements. is_expr e)"
| "is_expr (SetNode elements) = (\<forall>e \<in> set elements. is_expr e)"
| "is_expr (DictNode pairs) = (\<forall>(key, v) \<in> set pairs. is_expr key \<and> is_expr v)"
| "is_expr (IndexAccessNode container_node key_node) = (is_expr container_node \<and> is_expr key_node)"
| "is_expr (VarAccessNode name) = True"
| "is_expr (BinaryOpNode left op right) = (is_expr left \<and> is_expr right)"
| "is_expr (UnaryOpNode op operand) = is_expr operand"
| "is_expr (TypeCastNode n target_type) = is_expr n"
| "is_expr (FormatNode n precision) = is_expr n"
| "is_expr (InputNode input_type) = True"
| "is_expr (RangeNode start_node stop_node step_node) =
     (is_expr start_node
      \<and> (case stop_node of None \<Rightarrow> True | Some n \<Rightarrow> is_expr n)
      \<and> (case step_node of None \<Rightarrow> True | Some n \<Rightarrow> is_expr n))"
| "is_expr (FunctionCallNode func_name args) = (\<forall>e \<in> set args. is_expr e)"
| "is_expr (LambdaCallNode params body is_expression args) = (\<forall>e \<in> set args. is_expr e)"
| "is_expr (LambdaNode params body is_expression) = True"
| "is_expr _ = False"

text \<open>The node at the bottom of a chain of index reads: \<open>a\<close> in \<open>a[i][j]\<close>.\<close>

fun chain_root :: "node \<Rightarrow> node" where
  "chain_root (IndexAccessNode container_node key_node) = chain_root container_node"
| "chain_root n = n"

text \<open>
  Two properties of an evaluator: it never takes a name out of the constants, and it
  leaves the variables as they were when the node is an expression.
\<close>

definition keeps_constants :: "evaluator \<Rightarrow> bool" where
  "keeps_constants ev = (\<forall>n s. constants s \<subseteq> constants (snd (ev n s)))"

definition keeps_variables :: "evaluator \<Rightarrow> bool" where
  "keeps_variables ev = (\<forall>n s. is_expr n \<longrightarrow> variables (snd (ev n s)) = variables s)"

definition same_env :: "Interpreter \<Rightarrow> Interpreter \<Rightarrow> bool" where
  "same_env s s' = (variables s' = variables s \<and> constants s' = constants s)"

section \<open>The expression parser (src/puffing/src/parser.py)\<close>

text \<open>
  The methods of \<open>Parser\<close> from \<open>expr\<close> down to \<open>primary\<close>. Statements are outside the
  embedding, and with them the block body of a lambda (\<open>ParserUnsupported\<close>), as is a
  call whose callee is neither a name nor a lambda (the parser names it by the text
  of the node). The descent through \<open>primary\<close>, \<open>unary\<close> and \<open>power\<close> and every loop
  are bounded by fuel; \<open>ParserOutOfFuel\<close> marks a run the fuel cut off.
\<close>

datatype parser_message =
    ExpectedToken TokenType TokenType payload
  | ExpectedLambdaParameter
  | UnexpectedBrace
  | UnexpectedToken Token
  | RangeArguments
  | ExpectedFormatF

datatype parser_exception =
    ParserError parser_message
  | ParserAttributeError
  | ParserUnsupported
  | ParserOutOfFuel

record Parser =
  tokens :: "Token list"
  pos :: nat
  current_token :: Token

type_synonym 'a parsed = "parser_exception + 'a \<times> Parser"

definition ctype :: "Parser \<Rightarrow> TokenType" where
  "ctype p = ttype (current_token p)"

text \<open>\<open>advance\<close>: past the last token the position moves on and the current token stays.\<close>

definition advance_token :: "Parser \<Rightarrow> Parser" where
  "advance_token p =
     (if pos p + 1 < length (tokens p)
      then p\<lparr>pos := pos p + 1, current_token := tokens p ! (pos p + 1)\<rparr>
      else p\<lparr>pos := pos p + 1\<rparr>)"

definition peek_token :: "Parser \<Rightarrow> nat \<Rightarrow> Token option" where
  "peek_token p offset =
     (if pos p + offset < length (tokens p) then Some (tokens p ! (pos p + offset)) else None)"

definition expect :: "Parser \<Rightarrow> TokenType \<Rightarrow> parser_exception + Parser" where
  "expect p token_type =
     (if ctype p \<noteq> token_type
      then Inl (ParserError (ExpectedToken token_type (ctype p) (tvalue (current_token p))))
      else Inr (advance_token p))"

text \<open>The three methods the descent comes back to, at the fuel that is left.\<close>

record parsers =
  r_expr :: "Parser \<Rightarrow> node parsed"
  r_unary :: "Parser \<Rightarrow> node parsed"
  r_power :: "Parser \<Rightarrow> node parsed"

definition type_keywords :: "TokenType list" where
  "type_keywords = [INT_T, FLOAT, STR_T, BOOL]"

text \<open>
  The items after the first of a list separated by commas. With a \<open>closer\<close>, a comma
  directly before it ends the list (array and set literals allow a trailing comma;
  the arguments of a call do not).
\<close>

fun more_items :: "(Parser \<Rightarrow> node parsed) \<Rightarrow> TokenType option \<Rightarrow> nat \<Rightarrow> node list \<Rightarrow> Parser \<Rightarrow> (node list) parsed" where
  "more_items ex closer 0 acc p = Inl ParserOutOfFuel"
| "more_items ex closer (Suc k) acc p =
     (if ctype p = COMMA then
        (if closer = Some (ctype (advance_token p)) then Inr (acc, advance_token p)
         else
           (case ex (advance_token p) of
              Inl e \<Rightarrow> Inl e
            | Inr (x, p1) \<Rightarrow> more_items ex closer k (acc @ [x]) p1))
      else Inr (acc, p))"

definition items :: "(Parser \<Rightarrow> node parsed) \<Rightarrow> TokenType \<Rightarrow> bool \<Rightarrow> nat \<Rightarrow> Parser \<Rightarrow> (node list) parsed" where
  "items ex closer trailing k p =
     (if ctype p \<noteq> closer then
        (case ex p of
           Inl e \<Rightarrow> Inl e
         | Inr (x, p1) \<Rightarrow> more_items ex (if trailing then Some closer else None) k [x] p1)
      else Inr ([], p))"

definition array_literal :: "parsers \<Rightarrow> nat \<Rightarrow> Parser \<Rightarrow> node parsed" where
  "array_literal rc k p =
     (case expect p LBRACKET of
        Inl e \<Rightarrow> Inl e
      | Inr p1 \<Rightarrow>
          (case items (r_expr rc) RBRACKET True k p1 of
             Inl e \<Rightarrow> Inl e
           | Inr (elements, p2) \<Rightarrow>
               (case expect p2 RBRACKET of
                  Inl e \<Rightarrow> Inl e
                | Inr p3 \<Rightarrow> Inr (ArrayNode elements, p3))))"

definition set_literal :: "parsers \<Rightarrow> nat \<Rightarrow> Parser \<Rightarrow> node parsed" where
  "set_literal rc k p =
     (case expect p HASH of
        Inl e \<Rightarrow> Inl e
      | Inr p0 \<Rightarrow>
          (case expect p0 LBRACE of
             Inl e \<Rightarrow> Inl e
           | Inr p1 \<Rightarrow>
               (case items (r_expr rc) RBRACE True k p1 of
                  Inl e \<Rightarrow> Inl e
                | Inr (elements, p2) \<Rightarrow>
                    (case expect p2 RBRACE of
                       Inl e \<Rightarrow> Inl e
                     | Inr p3 \<Rightarrow> Inr (SetNode elements, p3)))))"

text \<open>One \<open>key: value\<close> pair of a dictionary literal, and the pairs after the first.\<close>

definition dict_pair :: "parsers \<Rightarrow> Parser \<Rightarrow> (node \<times> node) parsed" where
  "dict_pair rc p =
     (case r_expr rc p of
        Inl e \<Rightarrow> Inl e
      | Inr (key_node, p1) \<Rightarrow>
          (case expect p1 COLON of
             Inl e \<Rightarrow> Inl e
           | Inr p2 \<Rightarrow>
               (case r_expr rc p2 of
                  Inl e \<Rightarrow> Inl e
                | Inr (value_node, p3) \<Rightarrow> Inr ((key_node, value_node), p3))))"

fun more_pairs :: "parsers \<Rightarrow> nat \<Rightarrow> (node \<times> node) list \<Rightarrow> Parser \<Rightarrow> ((node \<times> node) list) parsed" where
  "more_pairs rc 0 acc p = Inl ParserOutOfFuel"
| "more_pairs rc (Suc k) acc p =
     (if ctype p = COMMA then
        (if ctype (advance_token p) = RBRACE then Inr (acc, advance_token p)
         else
           (case dict_pair rc (advance_token p) of
              Inl e \<Rightarrow> Inl e
            | Inr (x, p1) \<Rightarrow> more_pairs rc k (acc @ [x]) p1))
      else Inr (acc, p))"

definition dict_literal :: "parsers \<Rightarrow> nat \<Rightarrow> Parser \<Rightarrow> node parsed" where
  "dict_literal rc k p =
     (case expect p LBRACE of
        Inl e \<Rightarrow> Inl e
      | Inr p1 \<Rightarrow>
          (case (if ctype p1 \<noteq> RBRACE then
                   (case dict_pair rc p1 of
                      Inl e \<Rightarrow> Inl e
                    | Inr (x, p2) \<Rightarrow> more_pairs rc k [x] p2)
                 else Inr ([], p1)) of
             Inl e \<Rightarrow> Inl e
           | Inr (pairs, p3) \<Rightarrow>
               (case expect p3 RBRACE of
                  Inl e \<Rightarrow> Inl e
                | Inr p4 \<Rightarrow> Inr (DictNode pairs, p4))))"

text \<open>
  The scan that tells a dictionary literal from a block: a colon outside every
  bracket, before a semicolon or an unmatched closing brace, within the window of
  tokens it is given.
\<close>

fun scan_for_colon :: "Token list \<Rightarrow> int \<Rightarrow> int \<Rightarrow> int \<Rightarrow> bool" where
  "scan_for_colon [] paren_depth bracket_depth brace_depth = False"
| "scan_for_colon (t # ts) paren_depth bracket_depth brace_depth =
     (if ttype t = LPAREN then scan_for_colon ts (paren_depth + 1) bracket_depth brace_depth
      else if ttype t = RPAREN then scan_for_colon ts (paren_depth - 1) bracket_depth brace_depth
      else if ttype t = LBRACKET then scan_for_colon ts paren_depth (bracket_depth + 1) brace_depth
      else if ttype t = RBRACKET then scan_for_colon ts paren_depth (bracket_depth - 1) brace_depth
      else if ttype t = LBRACE then scan_for_colon ts paren_depth bracket_depth (brace_depth + 1)
      else if ttype t = RBRACE then
        (if 0 < brace_depth then scan_for_colon ts paren_depth bracket_depth (brace_depth - 1)
         else False)
      else if ttype t = COLON \<and> paren_depth = 0 \<and> bracket_depth = 0 \<and> brace_depth = 0 then True
      else if ttype t = SEMICOLON then False
      else scan_for_colon ts paren_depth bracket_depth brace_depth)"

definition ident_name :: "Token \<Rightarrow> string option" where
  "ident_name t = (case tvalue t of StrValue name \<Rightarrow> Some name | _ \<Rightarrow> None)"

text \<open>The parameter names of a lambda after the first.\<close>

fun more_params :: "nat \<Rightarrow> string list \<Rightarrow> Parser \<Rightarrow> (string list) parsed" where
  "more_params 0 acc p = Inl ParserOutOfFuel"
| "more_params (Suc k) acc p =
     (if ctype p = COMMA then
        (if ctype (advance_token p) \<noteq> IDENT then Inl (ParserError ExpectedLambdaParameter)
         else
           (case ident_name (current_token (advance_token p)) of
              None \<Rightarrow> Inl ParserUnsupported
            | Some name \<Rightarrow> more_params k (acc @ [name]) (advance_token (advance_token p))))
      else Inr (acc, p))"

definition lambda_func :: "parsers \<Rightarrow> nat \<Rightarrow> Parser \<Rightarrow> node parsed" where
  "lambda_func rc k p =
     (case expect p LAMB of
        Inl e \<Rightarrow> Inl e
      | Inr p0 \<Rightarrow>
          (case expect p0 LPAREN of
             Inl e \<Rightarrow> Inl e
           | Inr p1 \<Rightarrow>
               (case (if ctype p1 \<noteq> RPAREN then
                        (if ctype p1 \<noteq> IDENT then Inl (ParserError ExpectedLambdaParameter)
                         else
                           (case ident_name (current_token p1) of
                              None \<Rightarrow> Inl ParserUnsupported
                            | Some name \<Rightarrow> more_params k [name] (advance_token p1)))
                      else Inr ([], p1)) of
                  Inl e \<Rightarrow> Inl e
                | Inr (params, p2) \<Rightarrow>
                    (case expect p2 RPAREN of
                       Inl e \<Rightarrow> Inl e
                     | Inr p3 \<Rightarrow>
                         (case expect p3 ARROW of
                            Inl e \<Rightarrow> Inl e
                          | Inr p4 \<Rightarrow>
                              if ctype p4 = LBRACE then Inl ParserUnsupported
                              else
                                (case r_expr rc p4 of
                                   Inl e \<Rightarrow> Inl e
                                 | Inr (body, p5) \<Rightarrow> Inr (LambdaNode params body True, p5)))))))"

definition input_statement :: "Parser \<Rightarrow> node parsed" where
  "input_statement p =
     (case expect p INPUT of
        Inl e \<Rightarrow> Inl e
      | Inr p0 \<Rightarrow>
          (case expect p0 LPAREN of
             Inl e \<Rightarrow> Inl e
           | Inr p1 \<Rightarrow>
               (if ctype p1 \<in> set type_keywords then
                  (case expect (advance_token p1) RPAREN of
                     Inl e \<Rightarrow> Inl e
                   | Inr p2 \<Rightarrow> Inr (InputNode (Some (ctype p1)), p2))
                else
                  (case expect p1 RPAREN of
                     Inl e \<Rightarrow> Inl e
                   | Inr p2 \<Rightarrow> Inr (InputNode None, p2)))))"

text \<open>The lookahead for a type cast: a type keyword, then a closing parenthesis.\<close>

definition cast_ahead :: "Parser \<Rightarrow> bool" where
  "cast_ahead p =
     (case peek_token p 1 of
        None \<Rightarrow> False
      | Some next_token \<Rightarrow>
          ttype next_token \<in> set type_keywords
          \<and> (case peek_token p 2 of None \<Rightarrow> False | Some peek_after \<Rightarrow> ttype peek_after = RPAREN))"

definition primary :: "parsers \<Rightarrow> nat \<Rightarrow> Parser \<Rightarrow> node parsed" where
  "primary rc k p =
     (let token = current_token p in
      if ttype token = LAMB then lambda_func rc k p
      else if ttype token = LPAREN then
        (if cast_ahead p then
           (let p1 = advance_token p; target_type = ctype p1 in
            case expect (advance_token p1) RPAREN of
              Inl e \<Rightarrow> Inl e
            | Inr p2 \<Rightarrow>
                (case r_unary rc p2 of
                   Inl e \<Rightarrow> Inl e
                 | Inr (x, p3) \<Rightarrow> Inr (TypeCastNode x target_type, p3)))
         else
           (case r_expr rc (advance_token p) of
              Inl e \<Rightarrow> Inl e
            | Inr (x, p1) \<Rightarrow>
                (case expect p1 RPAREN of
                   Inl e \<Rightarrow> Inl e
                 | Inr p2 \<Rightarrow> Inr (x, p2))))
      else if ttype token = NUMBER then
        (case tvalue token of
           NumValue n \<Rightarrow> Inr (NumberNode n, advance_token p)
         | _ \<Rightarrow> Inl ParserUnsupported)
      else if ttype token = STRING then
        (case tvalue token of
           StrValue t \<Rightarrow> Inr (StringNode t, advance_token p)
         | _ \<Rightarrow> Inl ParserUnsupported)
      else if ttype token = TRUE then Inr (BoolNode True, advance_token p)
      else if ttype token = FALSE then Inr (BoolNode False, advance_token p)
      else if ttype token = LBRACKET then array_literal rc k p
      else if ttype token = LBRACE then
        (case peek_token p 1 of
           None \<Rightarrow> Inl (ParserError UnexpectedBrace)
         | Some next_token \<Rightarrow>
             if ttype next_token = RBRACE then dict_literal rc k p
             else if scan_for_colon (take 14 (drop (pos p + 1) (tokens p))) 0 0 0
             then dict_literal rc k p
             else Inl (ParserError UnexpectedBrace))
      else if ttype token = HASH then set_literal rc k p
      else if ttype token = INPUT then input_statement p
      else if ttype token = IDENT then
        (case ident_name token of
           None \<Rightarrow> Inl ParserUnsupported
         | Some name \<Rightarrow> Inr (VarAccessNode name, advance_token p))
      else Inl (ParserError (UnexpectedToken token)))"

text \<open>
  What \<open>call\<close> builds from a callee and its arguments: the \<open>RangeNode\<close> for the name
  \<open>range\<close>, the call of a lambda, the call by name.
\<close>

definition make_call :: "node \<Rightarrow> node list \<Rightarrow> parser_exception + node" where
  "make_call callee args =
     (case callee of
        VarAccessNode name \<Rightarrow>
          if name = ''range'' then
            (if length args = 1
             then Inr (RangeNode (NumberNode (NInt 1)) (Some (args ! 0)) (Some (NumberNode (NInt 1))))
             else if length args = 2
             then Inr (RangeNode (args ! 0) (Some (args ! 1)) (Some (NumberNode (NInt 1))))
             else if length args = 3
             then Inr (RangeNode (args ! 0) (Some (args ! 1)) (Some (args ! 2)))
             else Inl (ParserError RangeArguments))
          else Inr (FunctionCallNode name args)
      | LambdaNode params body is_expression \<Rightarrow>
          Inr (LambdaCallNode params body is_expression args)
      | _ \<Rightarrow> Inl ParserUnsupported)"

definition number_precision :: "Token \<Rightarrow> int option" where
  "number_precision t =
     (case tvalue t of
        NumValue (NInt i) \<Rightarrow> Some i
      | NumValue (NFloat x) \<Rightarrow> Some (if 0 \<le> x then \<lfloor>x\<rfloor> else \<lceil>x\<rceil>)
      | _ \<Rightarrow> None)"

text \<open>The loop of \<open>call\<close>: casts, calls and format suffixes after a primary.\<close>

fun call_loop :: "parsers \<Rightarrow> nat \<Rightarrow> node \<Rightarrow> Parser \<Rightarrow> node parsed" where
  "call_loop rc 0 n p = Inl ParserOutOfFuel"
| "call_loop rc (Suc k) n p =
     (if ctype p = LPAREN then
        (case peek_token p 1 of
           None \<Rightarrow> Inr (n, p)
         | Some next_token \<Rightarrow>
             if cast_ahead p then
               (case expect (advance_token (advance_token p)) RPAREN of
                  Inl e \<Rightarrow> Inl e
                | Inr p1 \<Rightarrow> call_loop rc k (TypeCastNode n (ctype (advance_token p))) p1)
             else
               (case items (r_expr rc) RPAREN False k (advance_token p) of
                  Inl e \<Rightarrow> Inl e
                | Inr (args, p1) \<Rightarrow>
                    (case expect p1 RPAREN of
                       Inl e \<Rightarrow> Inl e
                     | Inr p2 \<Rightarrow>
                         (case make_call n args of
                            Inl e \<Rightarrow> Inl e
                          | Inr m \<Rightarrow> call_loop rc k m p2))))
      else if ctype p = DOT then
        (case peek_token p 1 of
           None \<Rightarrow> Inr (n, p)
         | Some next_token \<Rightarrow>
             if ttype next_token = NUMBER then
               (case number_precision (current_token (advance_token p)) of
                  None \<Rightarrow> Inl ParserUnsupported
                | Some precision \<Rightarrow>
                    (let p2 = advance_token (advance_token p) in
                     if ctype p2 = IDENT \<and> tvalue (current_token p2) = StrValue ''f''
                     then call_loop rc k (FormatNode n precision) (advance_token p2)
                     else Inl (ParserError ExpectedFormatF)))
             else Inr (n, p))
      else Inr (n, p))"

definition call_expr :: "parsers \<Rightarrow> nat \<Rightarrow> Parser \<Rightarrow> node parsed" where
  "call_expr rc k p =
     (case primary rc k p of
        Inl e \<Rightarrow> Inl e
      | Inr (n, p1) \<Rightarrow> call_loop rc k n p1)"

text \<open>The loop of \<open>postfix\<close>: index reads after a call.\<close>

fun postfix_loop :: "parsers \<Rightarrow> nat \<Rightarrow> node \<Rightarrow> Parser \<Rightarrow> node parsed" where
  "postfix_loop rc 0 n p = Inl ParserOutOfFuel"
| "postfix_loop rc (Suc k) n p =
     (if ctype p = LBRACKET then
        (case r_expr rc (advance_token p) of
           Inl e \<Rightarrow> Inl e
         | Inr (index_node, p1) \<Rightarrow>
             (case expect p1 RBRACKET of
                Inl e \<Rightarrow> Inl e
              | Inr p2 \<Rightarrow> postfix_loop rc k (IndexAccessNode n index_node) p2))
      else Inr (n, p))"

definition postfix :: "parsers \<Rightarrow> nat \<Rightarrow> Parser \<Rightarrow> node parsed" where
  "postfix rc k p =
     (case call_expr rc k p of
        Inl e \<Rightarrow> Inl e
      | Inr (n, p1) \<Rightarrow> postfix_loop rc k n p1)"

definition unary :: "parsers \<Rightarrow> nat \<Rightarrow> Parser \<Rightarrow> node parsed" where
  "unary rc k p =
     (if ctype p = MINUS \<or> ctype p = NOT then
        (case r_unary rc (advance_token p) of
           Inl e \<Rightarrow> Inl e
         | Inr (operand, p1) \<Rightarrow> Inr (UnaryOpNode (ctype p) operand, p1))
      else postfix rc k p)"

text \<open>\<open>power\<close>: the right operand is a \<open>power\<close> again, so the operator groups to the right.\<close>

definition power_expr :: "parsers \<Rightarrow> nat \<Rightarrow> Parser \<Rightarrow> node parsed" where
  "power_expr rc k p =
     (case unary rc k p of
        Inl e \<Rightarrow> Inl e
      | Inr (left, p1) \<Rightarrow>
          if ctype p1 = POWER then
            (case r_power rc (advance_token p1) of
               Inl e \<Rightarrow> Inl e
             | Inr (right, p2) \<Rightarrow> Inr (BinaryOpNode left POWER right, p2))
          else Inr (left, p1))"

text \<open>
  The loop shared by \<open>term\<close>, \<open>arith_expr\<close>, \<open>comparison\<close>, \<open>and_expr\<close> and \<open>or_expr\<close>:
  while the current token is one of the level's operators, parse one more operand of
  the next level and put the node built so far on the left.
\<close>

fun binary_loop :: "TokenType list \<Rightarrow> (Parser \<Rightarrow> node parsed) \<Rightarrow> nat \<Rightarrow> node \<Rightarrow> Parser \<Rightarrow> node parsed" where
  "binary_loop ops operand 0 left p = Inl ParserOutOfFuel"
| "binary_loop ops operand (Suc k) left p =
     (if ctype p \<in> set ops then
        (case operand (advance_token p) of
           Inl e \<Rightarrow> Inl e
         | Inr (right, p1) \<Rightarrow> binary_loop ops operand k (BinaryOpNode left (ctype p) right) p1)
      else Inr (left, p))"

definition binary_level :: "TokenType list \<Rightarrow> (Parser \<Rightarrow> node parsed) \<Rightarrow> nat \<Rightarrow> Parser \<Rightarrow> node parsed" where
  "binary_level ops operand k p =
     (case operand p of
        Inl e \<Rightarrow> Inl e
      | Inr (left, p1) \<Rightarrow> binary_loop ops operand k left p1)"

definition term_expr :: "parsers \<Rightarrow> nat \<Rightarrow> Parser \<Rightarrow> node parsed" where
  "term_expr rc k = binary_level [MULTIPLY, DIVIDE, MODULO] (power_expr rc k) k"

definition arith_expr :: "parsers \<Rightarrow> nat \<Rightarrow> Parser \<Rightarrow> node parsed" where
  "arith_expr rc k = binary_level [PLUS, MINUS] (term_expr rc k) k"

definition comparison :: "parsers \<Rightarrow> nat \<Rightarrow> Parser \<Rightarrow> node parsed" where
  "comparison rc k =
     binary_level [EQUAL, NOT_EQUAL, LESS, GREATER, LESS_EQUAL, GREATER_EQUAL] (arith_expr rc k) k"

definition and_expr :: "parsers \<Rightarrow> nat \<Rightarrow> Parser \<Rightarrow> node parsed" where
  "and_expr rc k = binary_level [AND] (comparison rc k) k"

definition or_expr :: "parsers \<Rightarrow> nat \<Rightarrow> Parser \<Rightarrow> node parsed" where
  "or_expr rc k = binary_level [OR] (and_expr rc k) k"

definition expr :: "parsers \<Rightarrow> nat \<Rightarrow> Parser \<Rightarrow> node parsed" where
  "expr rc k = or_expr rc k"

text \<open>The descent closed: with no fuel it stops, with more it goes one level deeper.\<close>

primrec parsers_at :: "nat \<Rightarrow> nat \<Rightarrow> parsers" where
  "parsers_at 0 k =
     \<lparr>r_expr = (\<lambda>p. Inl ParserOutOfFuel), r_unary = (\<lambda>p. Inl ParserOutOfFuel),
      r_power = (\<lambda>p. Inl ParserOutOfFuel)\<rparr>"
| "parsers_at (Suc n) k =
     \<lparr>r_expr = expr (parsers_at n k) k, r_unary = unary (parsers_at n k) k,
      r_power = power_expr (parsers_at n k) k\<rparr>"

text \<open>
  \<open>Parser(tokens).expr()\<close>, with the number of tokens as fuel. On an empty list the
  parser has no current token and its first test raises \<open>AttributeError\<close>.
\<close>

definition parse_expression :: "Token list \<Rightarrow> node parsed" where
  "parse_expression ts =
     (case ts of
        [] \<Rightarrow> Inl ParserAttributeError
      | t # rest \<Rightarrow>
          expr (parsers_at (length ts) (length ts)) (length ts)
            \<lparr>tokens = ts, pos = 0, current_token = t\<rparr>)"

definition parsed_node :: "node parsed \<Rightarrow> node option" where
  "parsed_node r = (case r of Inl e \<Rightarrow> None | Inr (n, p) \<Rightarrow> Some n)"

section \<open>Example programs\<close>

text \<open>\<open>fun f() { return f(); } f();\<close>: a function that calls itself without end.\<close>

definition runaway_body :: node where
  "runaway_body = BlockNode [ReturnNode (Some (FunctionCallNode ''f'' []))]"

definition runaway_program :: node where
  "runaway_program = BlockNode [FunctionDefNode ''f'' [] runaway_body, FunctionCallNode ''f'' []]"

text \<open>
  \<open>fun f() { lock c as 1; } f(); c as 2;\<close> and \<open>lock c as [1]; c[1] as 1 / 0;\<close>: two
  writes to a name marked constant.
\<close>

definition unbound_constant_program :: node where
  "unbound_constant_program =
     BlockNode
       [FunctionDefNode ''f'' [] (BlockNode [VarAssignNode ''c'' (NumberNode (NInt 1)) True]),
        FunctionCallNode ''f'' [],
        VarReassignNode ''c'' (NumberNode (NInt 2))]"

definition failing_value_program :: node where
  "failing_value_program =
     BlockNode
       [VarAssignNode ''c'' (ArrayNode [NumberNode (NInt 1)]) True,
        IndexAssignNode (IndexAccessNode (VarAccessNode ''c'') (NumberNode (NInt 1)))
          (BinaryOpNode (NumberNode (NInt 1)) DIVIDE (NumberNode (NInt 0)))]"


section \<open>Division, modulo and control flow\<close>

lemma eval_Suc: "eval (Suc d) k node s = eval_step (eval d k) k node s"
  by simp

lemma eval_number [simp]: "eval (Suc d) k (NumberNode (NInt i)) s = (Value (VInt i), s)"
  by simp

text \<open>
  A division whose right operand is zero (the integer, the float or \<open>false\<close>) ends
  with the interpreter's own error, whatever the left operand, in the binary form
  and in the compound form.
\<close>

lemma division_by_zero_typed:
  "equals_zero right \<Longrightarrow> binary_op DIVIDE left right s = (runtime_error DivisionByZero, s)"
  by (simp add: binary_op_def)

lemma compound_division_by_zero_typed:
  "equals_zero right \<Longrightarrow> compound_op DIVIDE left right s = (runtime_error DivisionByZero, s)"
  by (simp add: compound_op_def)

text \<open>
  A modulo of numbers whose right operand is zero ends with the host's
  \<open>ZeroDivisionError\<close> in both forms: neither has the test the divisions have.
\<close>

lemma modulo_by_zero_untyped:
  assumes "to_num left = Some a" and "equals_zero right"
  shows "binary_op MODULO left right s = (HostException ZeroDivisionError, s)"
    and "compound_op MODULO left right s = (HostException ZeroDivisionError, s)"
  using assms
  by (auto simp: binary_op_def compound_op_def py_mod_def equals_zero_def split: option.splits)

text \<open>
  Claim C4. The specification has a modulo by zero raise the typed error of the
  taxonomy, as a division by zero does. The binary operator \<open>5 % 0\<close> (and \<open>a % 0\<close> for
  every integer literal \<open>a\<close>) ends instead with the host's \<open>ZeroDivisionError\<close>, which
  is not a \<open>PuffingError\<close>.
\<close>

theorem modulo_by_zero_escapes:
  "eval (Suc (Suc d)) k (BinaryOpNode (NumberNode (NInt a)) MODULO (NumberNode (NInt 0))) s
     = (HostException ZeroDivisionError, s)"
  by (simp add: binary_op_def py_mod_def to_num_def num_real_def)

text \<open>
  Claim C5. The specification has a \<open>break\<close>, a \<open>continue\<close> or a \<open>return\<close> with nothing
  around it to catch it raise the typed error of the taxonomy. Run as whole programs,
  the three statements leave \<open>Interpreter.run\<close> as the control-flow exceptions
  themselves, which are not \<open>PuffingError\<close>s.
\<close>

theorem break_outside_loop_escapes:
  "run (Suc (Suc d)) k (BlockNode [BreakNode]) s = (BreakException, s)
   \<and> run (Suc (Suc d)) k (BlockNode [ContinueNode]) s = (ContinueException, s)
   \<and> run (Suc (Suc (Suc d))) k (BlockNode [ReturnNode None]) s = (ReturnException VNone, s)"
  by (simp add: run_def eval_optional_def)

section \<open>Recursion depth\<close>

text \<open>
  When the host refuses a deeper call, the exception goes through every level of the
  evaluator: a call of the function of \<open>runaway_program\<close> ends with the host's
  \<open>RecursionError\<close> at every depth.
\<close>

lemma runaway_call:
  "variables s ''f'' = Some (VFunction ''f'' [] runaway_body) \<Longrightarrow>
   fst (eval d k (FunctionCallNode ''f'' []) s) = HostException RecursionError"
proof (induction d arbitrary: s rule: less_induct)
  case (less d)
  let ?f = "VFunction ''f'' [] runaway_body"
  show ?case
  proof (cases d)
    case 0
    then show ?thesis by simp
  next
    case d1: (Suc d1)
    have step: "eval d k (FunctionCallNode ''f'' []) s = call (eval d1 k) ?f [] s"
      using less.prems d1
      by (simp add: eval_function_call_def user_callable_def is_callable_def)
    show ?thesis
    proof (cases d1)
      case 0
      then show ?thesis
        by (simp add: step call_def assign_names_def call_result_def)
    next
      case d2: (Suc d2)
      show ?thesis
      proof (cases d2)
        case 0
        with d2 show ?thesis
          by (simp add: step call_def assign_names_def call_result_def runaway_body_def)
      next
        case d3: (Suc d3)
        have "d3 < d" using d1 d2 d3 by simp
        from less.IH [OF this less.prems]
        obtain s' where inner: "eval d3 k (FunctionCallNode ''f'' []) s = (HostException RecursionError, s')"
          by (cases "eval d3 k (FunctionCallNode ''f'' []) s") auto
        have same: "s\<lparr>variables := variables s\<rparr> = s" by simp
        show ?thesis
          using d2 d3 inner
          by (simp add: step call_def assign_names_def call_result_def runaway_body_def
              eval_optional_def same)
      qed
    qed
  qed
qed

text \<open>
  Claim C7. The specification has the evaluator turn the host's recursion limit into
  a typed "recursion too deep" error. Whatever depth the host allows,
  \<open>Interpreter.run\<close> on \<open>runaway_program\<close> ends with the host's own \<open>RecursionError\<close>,
  which is not a \<open>PuffingError\<close>.
\<close>

theorem recursion_limit_escapes:
  "fst (run (Suc (Suc d)) k runaway_program Interpreter_init) = HostException RecursionError"
proof -
  let ?s = "Interpreter_init\<lparr>variables := (variables Interpreter_init)(''f'' \<mapsto> VFunction ''f'' [] runaway_body)\<rparr>"
  have "fst (eval (Suc d) k (FunctionCallNode ''f'' []) ?s) = HostException RecursionError"
    by (rule runaway_call) simp
  then obtain s' where "eval (Suc d) k (FunctionCallNode ''f'' []) ?s = (HostException RecursionError, s')"
    by (cases "eval (Suc d) k (FunctionCallNode ''f'' []) ?s") auto
  then show ?thesis
    by (simp add: run_def runaway_program_def)
qed

section \<open>Index reads\<close>

text \<open>
  Reading an array of length \<open>n\<close> at an integer index \<open>i\<close>: the slot \<open>i - 1\<close> for
  \<open>1 \<le> i \<le> n\<close>, the slot \<open>n + i\<close> for \<open>-n \<le> i \<le> -1\<close>, and a \<open>RuntimeError\<close> at
  zero and beyond both ends; a key that is no \<open>int\<close> for the host is refused.
\<close>

lemma index_access_integer_key:
  assumes "list_at s a = Some xs"
  shows "1 \<le> i \<Longrightarrow> i \<le> int (length xs) \<Longrightarrow>
           index_access (VList a) (VInt i) s = Value (xs ! nat (i - 1))"
    and "- int (length xs) \<le> i \<Longrightarrow> i \<le> - 1 \<Longrightarrow>
           index_access (VList a) (VInt i) s = Value (xs ! nat (int (length xs) + i))"
    and "index_access (VList a) (VInt 0) s = runtime_error (IndexInvalid (VInt 0))"
    and "int (length xs) < i \<Longrightarrow>
           index_access (VList a) (VInt i) s = runtime_error (IndexOutOfRange (VInt i) (length xs))"
    and "i < - int (length xs) \<Longrightarrow>
           index_access (VList a) (VInt i) s = runtime_error (IndexOutOfRange (VInt i) (length xs))"
    and "as_int key = None \<Longrightarrow>
           index_access (VList a) key s = runtime_error (IndexMustBeInteger key)"
  using assms
  by (auto simp: index_access_def normalize_index_def py_index_def as_int_def)

lemma index_access_last:
  assumes "list_at s a = Some xs" and "xs \<noteq> []"
  shows "index_access (VList a) (VInt (- 1)) s = Value (last xs)"
proof -
  have "nat (int (length xs) + - 1) = length xs - 1" by simp
  moreover have "- int (length xs) \<le> - 1" using assms(2) by (cases xs) auto
  ultimately show ?thesis
    using index_access_integer_key(2) [OF assms(1), of "- 1"] assms(2)
    by (simp add: last_conv_nth)
qed

text \<open>
  Claim C2. The specification has every index that is not an integer raise the
  index-type error. A boolean is no integer of the language, but it passes the
  interpreter's test \<open>isinstance(key, int)\<close>: reading \<open>[10, 20][true]\<close> returns the first
  element.
\<close>

theorem index_read_boolean_key:
  "fst (eval (Suc (Suc (Suc d))) k
         (IndexAccessNode (ArrayNode [NumberNode (NInt 10), NumberNode (NInt 20)]) (BoolNode True)) s)
     = Value (VInt 10)"
  by (simp add: new_list_def index_access_def list_at_def normalize_index_def as_int_def
      py_index_def)

section \<open>Ranges\<close>

lemma range_length_step_one: "range_length a (b + 1) 1 = nat (b - a + 1)"
  by (simp add: range_length_def)

lemma py_range_step_one: "py_range a (b + 1) 1 = [a..b]"
proof (rule nth_equalityI)
  show "length (py_range a (b + 1) 1) = length [a..b]"
    by (simp add: py_range_def range_length_step_one)
next
  fix i assume "i < length (py_range a (b + 1) 1)"
  then have i: "i < nat (b - a + 1)" by (simp add: py_range_def range_length_step_one)
  then have "[0..<nat (b - a + 1)] ! i = i" by (metis add_0 nth_upt)
  with i have "py_range a (b + 1) 1 ! i = a + int i"
    by (simp add: py_range_def range_length_step_one)
  moreover from i have "[a..b] ! i = a + int i"
    by (intro nth_upto) linarith
  ultimately show "py_range a (b + 1) 1 ! i = [a..b] ! i" by simp
qed

lemma make_range_integers:
  assumes "b - a < int sys_maxsize"
  shows "make_range (VInt a) (VInt b) (VInt 1) s
     = (Value (VList (length (heap s))), s\<lparr>heap := heap s @ [map VInt [a..b]]\<rparr>)"
proof -
  from assms have "\<not> sys_maxsize < nat (b - a + 1)" by linarith
  then show ?thesis
    by (simp add: make_range_def int_conv_def py_range_step_one range_length_step_one new_list_def)
qed

lemma make_range_too_long:
  assumes "int sys_maxsize \<le> b - a"
  shows "make_range (VInt a) (VInt b) (VInt 1) s = (HostException OverflowError, s)"
proof -
  from assms have "sys_maxsize < nat (b - a + 1)" by linarith
  then show ?thesis
    by (simp add: make_range_def int_conv_def range_length_step_one)
qed

text \<open>
  Claim C10, as the specification has it: \<open>range(n)\<close> yields \<open>[1, ..., n]\<close> for every
  integer \<open>n \<ge> 1\<close>. It fails at \<open>n = 2^63\<close>: the range is longer than \<open>sys.maxsize\<close> and
  \<open>list\<close> raises the host's \<open>OverflowError\<close>.
\<close>

theorem range_too_long_counterexample:
  "fst (eval 2 0
         (RangeNode (NumberNode (NInt 1)) (Some (NumberNode (NInt 9223372036854775808)))
            (Some (NumberNode (NInt 1)))) Interpreter_init)
     = HostException OverflowError"
  by (simp add: numeral_2_eq_2 eval_optional_def make_range_too_long sys_maxsize_def)

text \<open>
  Claim C10, amended. \<open>range(n)\<close> reaches the evaluator as a \<open>RangeNode\<close> from the
  literal 1 to the argument, and \<open>range(a, b)\<close> as one from the first argument to the
  second, both with the literal step 1. When the arguments evaluate to integers and
  the range has at most \<open>sys.maxsize\<close> elements, the first form yields a new array
  \<open>[1, ..., n]\<close> and the second a new array \<open>[a, ..., b]\<close>: the stop value is included.
\<close>

theorem range_includes_stop:
  "(eval (Suc d) k stop_node s = (Value (VInt n), s1) \<longrightarrow> 1 \<le> n \<longrightarrow> n \<le> int sys_maxsize \<longrightarrow>
      eval (Suc (Suc d)) k
        (RangeNode (NumberNode (NInt 1)) (Some stop_node) (Some (NumberNode (NInt 1)))) s
      = (Value (VList (length (heap s1))), s1\<lparr>heap := heap s1 @ [map VInt [1..n]]\<rparr>))
   \<and> (eval (Suc d) k first_node s = (Value (VInt a), s2) \<longrightarrow>
      eval (Suc d) k second_node s2 = (Value (VInt b), s3) \<longrightarrow> a \<le> b \<longrightarrow>
      b - a < int sys_maxsize \<longrightarrow>
      eval (Suc (Suc d)) k
        (RangeNode first_node (Some second_node) (Some (NumberNode (NInt 1)))) s
      = (Value (VList (length (heap s3))), s3\<lparr>heap := heap s3 @ [map VInt [a..b]]\<rparr>))"
  by (simp add: eval_optional_def make_range_integers)

theorem range_includes_stop_witness:
  "fst (eval 2 0 (RangeNode (NumberNode (NInt 1)) (Some (NumberNode (NInt 3)))
                   (Some (NumberNode (NInt 1)))) Interpreter_init)
     = Value (VList 0)
   \<and> heap (snd (eval 2 0 (RangeNode (NumberNode (NInt 1)) (Some (NumberNode (NInt 3)))
                   (Some (NumberNode (NInt 1)))) Interpreter_init))
     = [[VInt 1, VInt 2, VInt 3]]
   \<and> heap (snd (eval 2 0 (RangeNode (NumberNode (NInt 2)) (Some (NumberNode (NInt 4)))
                   (Some (NumberNode (NInt 1)))) Interpreter_init))
     = [[VInt 2, VInt 3, VInt 4]]"
proof -
  have e3: "eval (Suc 0) 0 (NumberNode (NInt 3)) Interpreter_init = (Value (VInt 3), Interpreter_init)"
    and e2: "eval (Suc 0) 0 (NumberNode (NInt 2)) Interpreter_init = (Value (VInt 2), Interpreter_init)"
    and e4: "eval (Suc 0) 0 (NumberNode (NInt 4)) Interpreter_init = (Value (VInt 4), Interpreter_init)"
    by simp_all
  have u13: "[1..3] = [1, 2, 3::int]" and u24: "[2..4] = [2, 3, 4::int]"
    by (simp_all add: upto_rec1)
  have b1: "(3::int) \<le> int sys_maxsize" and b2: "(4::int) - 2 < int sys_maxsize"
    by (simp_all add: sys_maxsize_def)
  from range_includes_stop [of 0 0 "NumberNode (NInt 3)" Interpreter_init 3 Interpreter_init
      "NumberNode (NInt 2)" 2 Interpreter_init "NumberNode (NInt 4)" 4 Interpreter_init] e3 e2 e4 b1 b2
  show ?thesis
    by (simp add: numeral_2_eq_2 Interpreter_init_def u13 u24 del: eval.simps)
qed

section \<open>Calls\<close>

lemma user_callable_array [simp]: "user_callable (Some (VList a)) = None"
  by (simp add: user_callable_def is_callable_def)

text \<open>A function whose body appends to the array it is given: \<open>fun f(p) { push(p, v); }\<close>.\<close>

lemma call_push_body:
  assumes "list_at s a = Some xs" and "p \<notin> constants s"
    and "user_callable (variables s ''push'') = None"
  shows "call (eval (Suc (Suc (Suc d))) k)
           (VFunction f [p] (BlockNode [FunctionCallNode ''push'' [VarAccessNode p, NumberNode (NInt v)]]))
           [VList a] s
         = (Value (VList a), s\<lparr>heap := (heap s)[a := xs @ [VInt v]]\<rparr>)"
proof -
  let ?s1 = "s\<lparr>variables := (variables s)(p \<mapsto> VList a)\<rparr>"
  have uc: "user_callable (variables ?s1 ''push'') = None"
    using assms(3) by simp
  have la: "list_at ?s1 a = Some xs"
    using assms(1) by (cases "a < length (heap s)") (auto simp: list_at_def)
  have "eval_builtin (eval (Suc d) k) ''push'' [VarAccessNode p, NumberNode (NInt v)] ?s1
          = (Value (VList a), store_list a (xs @ [VInt v]) ?s1)"
    using assms(2) la
    by (simp add: eval_builtin_def mutator_arity_def var_access_name_def apply_mutator_def
        array_builtins_def array_mutation_def)
  with uc have "eval (Suc (Suc d)) k (FunctionCallNode ''push'' [VarAccessNode p, NumberNode (NInt v)]) ?s1
          = (Value (VList a), store_list a (xs @ [VInt v]) ?s1)"
    by (simp add: eval_function_call_def eval_Suc [of "Suc d"] del: eval.simps)
  then show ?thesis
    by (simp add: call_def assign_names_def call_result_def store_list_def
        eval_Suc [of "Suc (Suc d)"] del: eval.simps)
qed

text \<open>
  Claim C1. A call works on the caller's variables with the parameters bound over
  them, and puts the saved copy back when the body is over, whatever the body did
  and however it ended (a value, an early return, an error, an exception of the
  host): the caller's variables after the call are those before it, so no
  reassignment inside the call reaches the caller. The heap is not part of the copy:
  when the body appends to an array the caller has bound to a name, the caller's
  binding is the same array after the call and the array holds the new element.
\<close>

theorem call_restores_variables:
  "variables (snd (call ev func args s)) = variables s
   \<and> (length args = length params \<longrightarrow>
        call ev (VFunction name params body) args s
          = (call_result (fst (ev body (s\<lparr>variables := assign_names params args (variables s)\<rparr>))),
             (snd (ev body (s\<lparr>variables := assign_names params args (variables s)\<rparr>)))
               \<lparr>variables := variables s\<rparr>)
        \<and> call ev (VLambda params body is_expression) args s
          = (call_result (fst (ev body (s\<lparr>variables := assign_names params args (variables s)\<rparr>))),
             (snd (ev body (s\<lparr>variables := assign_names params args (variables s)\<rparr>)))
               \<lparr>variables := variables s\<rparr>))
   \<and> (variables s x = Some (VList a) \<longrightarrow> list_at s a = Some xs \<longrightarrow> p \<notin> constants s \<longrightarrow>
        user_callable (variables s ''push'') = None \<longrightarrow>
        (let s' = snd (call (eval (Suc (Suc (Suc d))) k)
                         (VFunction f [p]
                            (BlockNode [FunctionCallNode ''push'' [VarAccessNode p, NumberNode (NInt v)]]))
                         [VList a] s)
         in variables s' x = Some (VList a) \<and> list_at s' a = Some (xs @ [VInt v])))"
proof (intro conjI impI)
  show "variables (snd (call ev func args s)) = variables s"
    by (cases func) (auto simp: call_def Let_def split: prod.splits)
next
  assume "length args = length params"
  then show "call ev (VFunction name params body) args s
          = (call_result (fst (ev body (s\<lparr>variables := assign_names params args (variables s)\<rparr>))),
             (snd (ev body (s\<lparr>variables := assign_names params args (variables s)\<rparr>)))
               \<lparr>variables := variables s\<rparr>)"
    by (simp add: call_def Let_def split: prod.splits)
next
  assume "length args = length params"
  then show "call ev (VLambda params body is_expression) args s
          = (call_result (fst (ev body (s\<lparr>variables := assign_names params args (variables s)\<rparr>))),
             (snd (ev body (s\<lparr>variables := assign_names params args (variables s)\<rparr>)))
               \<lparr>variables := variables s\<rparr>)"
    by (simp add: call_def Let_def split: prod.splits)
next
  assume x: "variables s x = Some (VList a)" and xs: "list_at s a = Some xs"
    and p: "p \<notin> constants s" and u: "user_callable (variables s ''push'') = None"
  from xs have "a < length (heap s)" by (cases "a < length (heap s)") (auto simp: list_at_def)
  then show "let s' = snd (call (eval (Suc (Suc (Suc d))) k)
                         (VFunction f [p]
                            (BlockNode [FunctionCallNode ''push'' [VarAccessNode p, NumberNode (NInt v)]]))
                         [VList a] s)
         in variables s' x = Some (VList a) \<and> list_at s' a = Some (xs @ [VInt v])"
    using x by (simp add: call_push_body [OF xs p u] list_at_def del: eval.simps)
qed

theorem call_restores_variables_witness:
  "(let s = \<lparr>variables = [''g'' \<mapsto> VList 0], constants = {}, heap = [[VInt 1, VInt 2]]\<rparr>;
        s' = snd (call (eval 3 0)
                    (VFunction ''f'' [''p'']
                       (BlockNode [FunctionCallNode ''push'' [VarAccessNode ''p'', NumberNode (NInt 3)]]))
                    [VList 0] s)
    in variables s' ''g'' = Some (VList 0) \<and> variables s' ''p'' = None
       \<and> list_at s' 0 = Some [VInt 1, VInt 2, VInt 3])"
proof -
  let ?s = "\<lparr>variables = [''g'' \<mapsto> VList 0], constants = {}, heap = [[VInt 1, VInt 2]]\<rparr>"
  let ?f = "VFunction ''f'' [''p'']
              (BlockNode [FunctionCallNode ''push'' [VarAccessNode ''p'', NumberNode (NInt 3)]])"
  have three: "(3::nat) = Suc (Suc (Suc 0))" by simp
  have h1: "variables ?s ''g'' = Some (VList 0)" by simp
  have h2: "list_at ?s 0 = Some [VInt 1, VInt 2]" by (simp add: list_at_def)
  have h3: "''p'' \<notin> constants ?s" by simp
  have h4: "user_callable (variables ?s ''push'') = None" by (simp add: user_callable_def)
  from call_restores_variables [where s = ?s and x = "''g''" and a = 0 and xs = "[VInt 1, VInt 2]"
      and p = "''p''" and d = 0 and k = 0 and f = "''f''" and v = 3
      and ev = "eval 3 0" and func = ?f and args = "[VList 0]"
      and params = "[]" and body = BreakNode and name = "''f''" and is_expression = True]
    h1 h2 h3 h4
  show ?thesis
    by (simp add: three Let_def del: eval.simps)
qed

section \<open>What an evaluation leaves unchanged\<close>

text \<open>
  The operations of the host and the builtins work on the heap: they leave the variables
  and the constants as they are.
\<close>

lemma same_env_refl [simp]: "same_env s s"
  by (simp add: same_env_def)

lemma same_env_heap [simp]: "same_env s (s\<lparr>heap := h\<rparr>)"
  by (simp add: same_env_def)

lemma same_env_new_list [simp]: "same_env s (snd (new_list xs s))"
  by (simp add: new_list_def)

lemma same_env_store_list [simp]: "same_env s (store_list a xs s)"
  by (simp add: store_list_def)

lemma same_env_py_add [simp]: "same_env s (snd (py_add l r s))"
  by (simp add: py_add_def split: option.splits val.splits prod.splits)

lemma same_env_py_sub [simp]: "same_env s (snd (py_sub l r s))"
  by (simp add: py_sub_def split: option.splits)

lemma same_env_py_mul [simp]: "same_env s (snd (py_mul l r s))"
  by (simp add: py_mul_def split: option.splits val.splits)

lemma same_env_py_truediv [simp]: "same_env s (snd (py_truediv l r s))"
  by (simp add: py_truediv_def split: option.splits)

lemma same_env_py_mod [simp]: "same_env s (snd (py_mod l r s))"
  by (simp add: py_mod_def split: option.splits val.splits)

lemma same_env_py_pow [simp]: "same_env s (snd (py_pow l r s))"
  by (simp add: py_pow_def split: option.splits pynum.splits)

lemma same_env_binary_op [simp]: "same_env s (snd (binary_op op l r s))"
  by (simp add: binary_op_def split: option.splits)

lemma same_env_compound_op [simp]: "same_env s (snd (compound_op op l r s))"
  by (simp add: compound_op_def)

lemma same_env_make_range [simp]: "same_env s (snd (make_range a b c s))"
  by (simp add: make_range_def Let_def split: sum.splits)

lemma same_env_assign_item [simp]: "same_env s (snd (assign_item t key v s))"
  by (simp add: assign_item_def split: val.splits option.splits sum.splits)

lemma same_env_index_assign [simp]: "same_env s (snd (index_assign t path v s))"
  by (simp add: index_assign_def split: outcome.splits)

lemma same_env_apply_mutator [simp]: "same_env s (snd (apply_mutator name t rest s))"
  by (simp add: apply_mutator_def split: val.splits option.splits sum.splits)


lemma keeps_constantsD:
  "keeps_constants ev \<Longrightarrow> ev n s = (out, s') \<Longrightarrow> constants s \<subseteq> constants s'"
  by (metis keeps_constants_def snd_conv)

lemma keeps_variablesD:
  "keeps_variables ev \<Longrightarrow> is_expr n \<Longrightarrow> ev n s = (out, s') \<Longrightarrow> variables s' = variables s"
  by (metis keeps_variables_def snd_conv)

lemma same_envD:
  "same_env s (snd (f s)) \<Longrightarrow> f s = (out, s') \<Longrightarrow> variables s' = variables s \<and> constants s' = constants s"
  by (simp add: same_env_def)

lemma eval_optional_constants:
  "keeps_constants ev \<Longrightarrow> constants s \<subseteq> constants (snd (eval_optional ev n dflt s))"
  by (cases n) (auto simp: eval_optional_def keeps_constants_def)

lemma eval_optional_variables:
  "keeps_variables ev \<Longrightarrow> (case n of None \<Rightarrow> True | Some m \<Rightarrow> is_expr m) \<Longrightarrow>
   variables (snd (eval_optional ev n dflt s)) = variables s"
  by (cases n) (auto simp: eval_optional_def keeps_variables_def)

lemma eval_list_constants:
  "keeps_constants ev \<Longrightarrow> constants s \<subseteq> constants (snd (eval_list ev ns s))"
proof (induction ns arbitrary: s)
  case Nil
  then show ?case by simp
next
  case (Cons n ns)
  obtain out s1 where e: "ev n s = (out, s1)" by (cases "ev n s")
  from keeps_constantsD [OF Cons.prems e] have c1: "constants s \<subseteq> constants s1" .
  from Cons.IH [OF Cons.prems, of s1] have c2: "constants s1 \<subseteq> constants (snd (eval_list ev ns s1))" .
  show ?case
    using e c1 c2 by (cases out) (auto split: prod.splits sum.splits)
qed

lemma eval_list_variables:
  "keeps_variables ev \<Longrightarrow> \<forall>n \<in> set ns. is_expr n \<Longrightarrow>
   variables (snd (eval_list ev ns s)) = variables s"
proof (induction ns arbitrary: s)
  case Nil
  then show ?case by simp
next
  case (Cons n ns)
  obtain out s1 where e: "ev n s = (out, s1)" by (cases "ev n s")
  from Cons.prems have "is_expr n" by simp
  from keeps_variablesD [OF Cons.prems(1) this e] have v1: "variables s1 = variables s" .
  from Cons.IH [OF Cons.prems(1), of s1] Cons.prems(2)
  have v2: "variables (snd (eval_list ev ns s1)) = variables s1" by simp
  show ?case
    using e v1 v2 by (cases out) (auto split: prod.splits sum.splits)
qed

lemma eval_block_constants:
  "keeps_constants ev \<Longrightarrow> constants s \<subseteq> constants (snd (eval_block ev stmts result s))"
proof (induction stmts arbitrary: s result)
  case Nil
  then show ?case by simp
next
  case (Cons n ns)
  obtain out s1 where e: "ev n s = (out, s1)" by (cases "ev n s")
  from keeps_constantsD [OF Cons.prems e] have c1: "constants s \<subseteq> constants s1" .
  show ?case
  proof (cases out)
    case (Value v)
    from Cons.IH [OF Cons.prems, of s1 v] c1 e Value show ?thesis by auto
  qed (use e c1 in auto)
qed

lemma eval_elifs_constants:
  "keeps_constants ev \<Longrightarrow> constants s \<subseteq> constants (snd (eval_elifs ev elifs fb s))"
proof (induction elifs arbitrary: s)
  case Nil
  then show ?case by (cases fb) (auto simp: keeps_constants_def)
next
  case (Cons p ps)
  obtain c b where p: "p = (c, b)" by (cases p)
  obtain out s1 where e: "ev c s = (out, s1)" by (cases "ev c s")
  from keeps_constantsD [OF Cons.prems e] have c1: "constants s \<subseteq> constants s1" .
  show ?case
  proof (cases out)
    case (Value v)
    show ?thesis
    proof (cases "is_truthy s1 v")
      case True
      obtain out2 s2 where e2: "ev b s1 = (out2, s2)" by (cases "ev b s1")
      from keeps_constantsD [OF Cons.prems e2] c1 e e2 p Value True show ?thesis by auto
    next
      case False
      from Cons.IH [OF Cons.prems, of s1] c1 e p Value False show ?thesis by auto
    qed
  qed (use e c1 p in auto)
qed

lemma eval_path_constants:
  "keeps_constants ev \<Longrightarrow> constants s \<subseteq> constants (snd (eval_path ev n path s))"
proof (induction ev n path s rule: eval_path.induct)
  case (1 ev c key path s)
  obtain out s1 where e: "ev key s = (out, s1)" by (cases "ev key s")
  from keeps_constantsD [OF 1(2) e] have c1: "constants s \<subseteq> constants s1" .
  show ?case
  proof (cases out)
    case (Value v)
    from 1(1) [OF e [symmetric] Value 1(2)] c1 e Value show ?thesis by auto
  qed (use e c1 in auto)
qed auto

lemma eval_path_variables:
  "keeps_variables ev \<Longrightarrow> is_expr n \<Longrightarrow> variables (snd (eval_path ev n path s)) = variables s"
proof (induction ev n path s rule: eval_path.induct)
  case (1 ev c key path s)
  obtain out s1 where e: "ev key s = (out, s1)" by (cases "ev key s")
  from 1(3) have ik: "is_expr key" and ic: "is_expr c" by simp_all
  from keeps_variablesD [OF 1(2) ik e] have v1: "variables s1 = variables s" .
  show ?case
  proof (cases out)
    case (Value v)
    from 1(1) [OF e [symmetric] Value 1(2) ic] v1 e Value show ?thesis by auto
  qed (use e v1 in auto)
qed auto

lemma eval_path_root:
  "eval_path ev n path s = (Inr (p, cur), s') \<Longrightarrow> cur = chain_root n"
proof (induction ev n path s rule: eval_path.induct)
  case (1 ev c key path s)
  then show ?case by (auto split: prod.splits outcome.splits)
qed auto


lemma for_list_constants:
  "keeps_constants ev \<Longrightarrow> constants s \<subseteq> constants (snd (for_list ev k var body a i result s))"
proof (induction k arbitrary: s i result)
  case 0
  then show ?case by simp
next
  case (Suc k)
  show ?case
  proof (cases "list_at s a")
    case None
    then show ?thesis by simp
  next
    case (Some xs)
    show ?thesis
    proof (cases "length xs \<le> i")
      case True
      with Some show ?thesis by simp
    next
      case False
      let ?s0 = "s\<lparr>variables := (variables s)(var \<mapsto> xs ! i)\<rparr>"
      obtain out s1 where e: "ev body ?s0 = (out, s1)" by (cases "ev body ?s0")
      from keeps_constantsD [OF Suc.prems e] have c1: "constants s \<subseteq> constants s1" by simp
      from Suc.IH [OF Suc.prems, of s1 "Suc i" "loop_result out result"]
      have c2: "constants s1 \<subseteq> constants (snd (for_list ev k var body a (Suc i) (loop_result out result) s1))" .
      from Some False e c1 c2 show ?thesis by auto
    qed
  qed
qed

lemma for_str_constants:
  "keeps_constants ev \<Longrightarrow> constants s \<subseteq> constants (snd (for_str ev var body t result s))"
proof (induction t arbitrary: s result)
  case Nil
  then show ?case by simp
next
  case (Cons c cs)
  let ?s0 = "s\<lparr>variables := (variables s)(var \<mapsto> VStr [c])\<rparr>"
  obtain out s1 where e: "ev body ?s0 = (out, s1)" by (cases "ev body ?s0")
  from keeps_constantsD [OF Cons.prems e] have c1: "constants s \<subseteq> constants s1" by simp
  from Cons.IH [OF Cons.prems, of s1 "loop_result out result"]
  have c2: "constants s1 \<subseteq> constants (snd (for_str ev var body cs (loop_result out result) s1))" .
  from e c1 c2 show ?case by auto
qed

lemma while_loop_constants:
  "keeps_constants ev \<Longrightarrow> constants s \<subseteq> constants (snd (while_loop ev k c body result s))"
proof (induction k arbitrary: s result)
  case 0
  then show ?case by simp
next
  case (Suc k)
  obtain out s1 where e: "ev c s = (out, s1)" by (cases "ev c s")
  from keeps_constantsD [OF Suc.prems e] have c1: "constants s \<subseteq> constants s1" .
  show ?case
  proof (cases out)
    case (Value v)
    show ?thesis
    proof (cases "is_truthy s1 v")
      case True
      obtain out2 s2 where e2: "ev body s1 = (out2, s2)" by (cases "ev body s1")
      from keeps_constantsD [OF Suc.prems e2] have c2: "constants s1 \<subseteq> constants s2" .
      from Suc.IH [OF Suc.prems, of s2 "loop_result out2 result"]
      have c3: "constants s2 \<subseteq> constants (snd (while_loop ev k c body (loop_result out2 result) s2))" .
      from e e2 Value True c1 c2 c3 show ?thesis by auto
    next
      case False
      with e Value c1 show ?thesis by auto
    qed
  qed (use e c1 in auto)
qed

lemma do_while_loop_constants:
  "keeps_constants ev \<Longrightarrow> constants s \<subseteq> constants (snd (do_while_loop ev k body c result s))"
proof (induction k arbitrary: s result)
  case 0
  then show ?case by simp
next
  case (Suc k)
  obtain out s1 where e: "ev body s = (out, s1)" by (cases "ev body s")
  from keeps_constantsD [OF Suc.prems e] have c1: "constants s \<subseteq> constants s1" .
  show ?case
  proof (cases "goes_on out")
    case True
    obtain out2 s2 where e2: "ev c s1 = (out2, s2)" by (cases "ev c s1")
    from keeps_constantsD [OF Suc.prems e2] have c2: "constants s1 \<subseteq> constants s2" .
    from Suc.IH [OF Suc.prems, of s2 "loop_result out result"]
    have c3: "constants s2 \<subseteq> constants (snd (do_while_loop ev k body c (loop_result out result) s2))" .
    from e e2 True c1 c2 c3 show ?thesis by (cases out2) auto
  next
    case False
    with e c1 show ?thesis by auto
  qed
qed

lemma call_variables [simp]: "variables (snd (call ev func args s)) = variables s"
  by (cases func) (auto simp: call_def Let_def split: prod.splits)

lemma call_constants:
  "keeps_constants ev \<Longrightarrow> constants s \<subseteq> constants (snd (call ev func args s))"
proof (cases func)
  case (VFunction name params body)
  assume k: "keeps_constants ev"
  let ?s0 = "s\<lparr>variables := assign_names params args (variables s)\<rparr>"
  obtain out s1 where e: "ev body ?s0 = (out, s1)" by (cases "ev body ?s0")
  from keeps_constantsD [OF k e] e VFunction show ?thesis by (simp add: call_def)
next
  case (VLambda params body is_expression)
  assume k: "keeps_constants ev"
  let ?s0 = "s\<lparr>variables := assign_names params args (variables s)\<rparr>"
  obtain out s1 where e: "ev body ?s0 = (out, s1)" by (cases "ev body ?s0")
  from keeps_constantsD [OF k e] e VLambda show ?thesis by (simp add: call_def)
qed (simp_all add: call_def)

lemma eval_builtin_constants:
  assumes "keeps_constants ev"
  shows "constants s \<subseteq> constants (snd (eval_builtin ev func_name args s))"
proof -
  have one: "\<And>n s. constants s \<subseteq> constants (snd (ev n s))"
    using assms by (simp add: keeps_constants_def)
  have lst: "\<And>ns s. constants s \<subseteq> constants (snd (eval_list ev ns s))"
    using assms by (rule eval_list_constants)
  have mut: "\<And>t vs s. constants (snd (apply_mutator func_name t vs s)) = constants s"
    using same_env_apply_mutator by (simp add: same_env_def)
  show ?thesis
  proof (cases "func_name = ''len''")
    case True
    show ?thesis
    proof (cases args)
      case Nil
      with True show ?thesis by (simp add: eval_builtin_def)
    next
      case (Cons a as)
      show ?thesis
      proof (cases as)
        case Nil
        obtain out s1 where e: "ev a s = (out, s1)" by (cases "ev a s")
        with one [of s a] True Cons Nil show ?thesis
          by (cases out) (auto simp: eval_builtin_def)
      next
        case (Cons b bs)
        with True \<open>args = a # as\<close> show ?thesis by (simp add: eval_builtin_def)
      qed
    qed
  next
    case False
    show ?thesis
    proof (cases "mutator_arity func_name")
      case None
      with False show ?thesis by (simp add: eval_builtin_def)
    next
      case (Some n)
      show ?thesis
      proof (cases "length args \<noteq> n")
        case True
        with False Some show ?thesis by (simp add: eval_builtin_def)
      next
        case ok: False
        show ?thesis
        proof (cases args)
          case Nil
          with False Some ok show ?thesis by (simp add: eval_builtin_def)
        next
          case (Cons c rest)
          show ?thesis
          proof (cases "var_access_name c")
            case vn: (Some var_name)
            obtain r s1 where l: "eval_list ev rest s = (r, s1)" by (cases "eval_list ev rest s")
            with lst [of s rest] have "constants s \<subseteq> constants s1" by simp
            with False Some ok Cons vn l mut show ?thesis
              by (cases r) (auto simp: eval_builtin_def split: option.splits)
          next
            case vn: None
            obtain out s1 where e: "ev c s = (out, s1)" by (cases "ev c s")
            with one [of s c] have c1: "constants s \<subseteq> constants s1" by simp
            obtain r s2 where l: "eval_list ev rest s1 = (r, s2)" by (cases "eval_list ev rest s1")
            with lst [of s1 rest] have c2: "constants s1 \<subseteq> constants s2" by simp
            from False Some ok Cons vn e l c1 c2 mut show ?thesis
              by (cases out; cases r) (auto simp: eval_builtin_def)
          qed
        qed
      qed
    qed
  qed
qed


lemma eval_builtin_variables:
  assumes "keeps_variables ev" and "\<forall>n \<in> set args. is_expr n"
  shows "variables (snd (eval_builtin ev func_name args s)) = variables s"
proof -
  have one: "\<And>n s. is_expr n \<Longrightarrow> variables (snd (ev n s)) = variables s"
    using assms(1) by (simp add: keeps_variables_def)
  have lst: "\<And>ns s. \<forall>n \<in> set ns. is_expr n \<Longrightarrow> variables (snd (eval_list ev ns s)) = variables s"
    using assms(1) by (rule eval_list_variables)
  have mut: "\<And>t vs s. variables (snd (apply_mutator func_name t vs s)) = variables s"
    using same_env_apply_mutator by (simp add: same_env_def)
  show ?thesis
  proof (cases "func_name = ''len''")
    case True
    show ?thesis
    proof (cases args)
      case Nil
      with True show ?thesis by (simp add: eval_builtin_def)
    next
      case (Cons a as)
      show ?thesis
      proof (cases as)
        case Nil
        obtain out s1 where e: "ev a s = (out, s1)" by (cases "ev a s")
        with one [of a s] assms(2) True Cons Nil show ?thesis
          by (cases out) (auto simp: eval_builtin_def)
      next
        case (Cons b bs)
        with True \<open>args = a # as\<close> show ?thesis by (simp add: eval_builtin_def)
      qed
    qed
  next
    case False
    show ?thesis
    proof (cases "mutator_arity func_name")
      case None
      with False show ?thesis by (simp add: eval_builtin_def)
    next
      case (Some n)
      show ?thesis
      proof (cases "length args \<noteq> n")
        case True
        with False Some show ?thesis by (simp add: eval_builtin_def)
      next
        case ok: False
        show ?thesis
        proof (cases args)
          case Nil
          with False Some ok show ?thesis by (simp add: eval_builtin_def)
        next
          case (Cons c rest)
          from assms(2) Cons have ic: "is_expr c" and ir: "\<forall>n \<in> set rest. is_expr n" by simp_all
          show ?thesis
          proof (cases "var_access_name c")
            case vn: (Some var_name)
            obtain r s1 where l: "eval_list ev rest s = (r, s1)" by (cases "eval_list ev rest s")
            with lst [OF ir, of s] have "variables s1 = variables s" by simp
            with False Some ok Cons vn l mut show ?thesis
              by (cases r) (auto simp: eval_builtin_def split: option.splits)
          next
            case vn: None
            obtain out s1 where e: "ev c s = (out, s1)" by (cases "ev c s")
            with one [OF ic, of s] have c1: "variables s1 = variables s" by simp
            obtain r s2 where l: "eval_list ev rest s1 = (r, s2)" by (cases "eval_list ev rest s1")
            with lst [OF ir, of s1] have c2: "variables s2 = variables s1" by simp
            from False Some ok Cons vn e l c1 c2 mut show ?thesis
              by (cases out; cases r) (auto simp: eval_builtin_def)
          qed
        qed
      qed
    qed
  qed
qed

lemma eval_function_call_constants:
  assumes "keeps_constants ev"
  shows "constants s \<subseteq> constants (snd (eval_function_call ev func_name args s))"
proof (cases "user_callable (variables s func_name)")
  case None
  with eval_builtin_constants [OF assms] show ?thesis by (simp add: eval_function_call_def)
next
  case (Some func)
  obtain r s1 where l: "eval_list ev args s = (r, s1)" by (cases "eval_list ev args s")
  with eval_list_constants [OF assms, of s args] have c1: "constants s \<subseteq> constants s1" by simp
  from call_constants [OF assms] have c2: "\<And>vs. constants s1 \<subseteq> constants (snd (call ev func vs s1))" .
  from Some l c1 c2 show ?thesis
    by (cases r) (auto simp: eval_function_call_def)
qed

lemma eval_function_call_variables:
  assumes "keeps_variables ev" and "\<forall>n \<in> set args. is_expr n"
  shows "variables (snd (eval_function_call ev func_name args s)) = variables s"
proof (cases "user_callable (variables s func_name)")
  case None
  with eval_builtin_variables [OF assms] show ?thesis by (simp add: eval_function_call_def)
next
  case (Some func)
  obtain r s1 where l: "eval_list ev args s = (r, s1)" by (cases "eval_list ev args s")
  with eval_list_variables [OF assms, of s] have c1: "variables s1 = variables s" by simp
  from Some l c1 show ?thesis
    by (cases r) (auto simp: eval_function_call_def)
qed

lemma destructure_constants:
  "constants s \<subseteq> constants (snd (destructure names c v s))"
  by (auto simp: destructure_def new_list_def split: val.splits option.splits sum.splits)

lemma eval_index_assign_constants:
  assumes "keeps_constants ev"
  shows "constants s \<subseteq> constants (snd (eval_index_assign ev left value_node s))"
proof -
  obtain out s1 where e: "ev value_node s = (out, s1)" by (cases "ev value_node s")
  from keeps_constantsD [OF assms e] have c1: "constants s \<subseteq> constants s1" .
  obtain r s2 where p: "eval_path ev left [] s1 = (r, s2)" by (cases "eval_path ev left [] s1")
  with eval_path_constants [OF assms, of s1 left "[]"] have c2: "constants s1 \<subseteq> constants s2" by simp
  have ia: "\<And>t path v. constants (snd (index_assign t path v s2)) = constants s2"
    using same_env_index_assign by (simp add: same_env_def)
  show ?thesis
  proof (cases out)
    case (Value v)
    show ?thesis
    proof (cases r)
      case (Inl o2)
      with e p Value c1 c2 show ?thesis by (auto simp: eval_index_assign_def)
    next
      case (Inr pc)
      obtain path cur where pc: "pc = (path, cur)" by (cases pc)
      from e p Value Inr pc c1 c2 ia show ?thesis
        by (auto simp: eval_index_assign_def split: option.splits)
    qed
  qed (use e c1 in \<open>auto simp: eval_index_assign_def\<close>)
qed

lemma restore_loop_var_constants [simp]:
  "constants (restore_loop_var var before s) = constants s"
  by (simp add: restore_loop_var_def)

lemma eval_for_constants:
  assumes "keeps_constants ev"
  shows "constants s \<subseteq> constants (snd (eval_for ev k var it body s))"
proof -
  obtain out s1 where e: "ev it s = (out, s1)" by (cases "ev it s")
  from keeps_constantsD [OF assms e] have c1: "constants s \<subseteq> constants s1" .
  show ?thesis
  proof (cases out)
    case (Value v)
    show ?thesis
    proof (cases v)
      case (VList a)
      obtain o2 s2 where f: "for_list ev k var body a 0 VNone s1 = (o2, s2)"
        by (cases "for_list ev k var body a 0 VNone s1")
      with for_list_constants [OF assms, of s1 k var body a 0 VNone] have "constants s1 \<subseteq> constants s2" by simp
      with e Value VList f c1 show ?thesis by (auto simp: eval_for_def)
    next
      case (VStr t)
      obtain o2 s2 where f: "for_str ev var body t VNone s1 = (o2, s2)"
        by (cases "for_str ev var body t VNone s1")
      with for_str_constants [OF assms, of s1 var body t VNone] have "constants s1 \<subseteq> constants s2" by simp
      with e Value VStr f c1 show ?thesis by (auto simp: eval_for_def)
    qed (use e Value c1 in \<open>auto simp: eval_for_def\<close>)
  qed (use e c1 in \<open>auto simp: eval_for_def\<close>)
qed

lemma eval_step_constants:
  assumes "keeps_constants ev"
  shows "constants s \<subseteq> constants (snd (eval_step ev k n s))"
proof -
  have D: "\<And>n s out s'. ev n s = (out, s') \<Longrightarrow> constants s \<subseteq> constants s'"
    using assms by (rule keeps_constantsD)
  have DO: "\<And>n dflt s out s'. eval_optional ev n dflt s = (out, s') \<Longrightarrow> constants s \<subseteq> constants s'"
    using eval_optional_constants [OF assms] by (metis snd_conv)
  have DL: "\<And>ns s r s'. eval_list ev ns s = (r, s') \<Longrightarrow> constants s \<subseteq> constants s'"
    using eval_list_constants [OF assms] by (metis snd_conv)
  have E: "\<And>f s out s'. same_env s (snd (f s)) \<Longrightarrow> f s = (out, s') \<Longrightarrow> constants s' = constants s"
    by (simp add: same_env_def)
  show ?thesis
  proof (cases n)
    case (ReturnNode x)
    obtain o1 s1 where e1: "eval_optional ev x VNone s = (o1, s1)"
      by (cases "eval_optional ev x VNone s")
    from DO [OF e1] e1 ReturnNode show ?thesis by (cases o1) simp_all
  next
    case (ArrayNode x)
    obtain r s1 where l: "eval_list ev x s = (r, s1)" by (cases "eval_list ev x s")
    from DL [OF l] l ArrayNode show ?thesis by (cases r) (simp_all add: new_list_def)
  next
    case (IndexAccessNode c key)
    obtain o1 s1 where e1: "ev c s = (o1, s1)" by (cases "ev c s")
    obtain o2 s2 where e2: "ev key s1 = (o2, s2)" by (cases "ev key s1")
    note c = D [OF e1] D [OF e2]
    show ?thesis
    proof (cases o1)
      case v1: (Value x)
      from c e1 e2 IndexAccessNode v1 show ?thesis by (cases o2) auto
    qed (use c e1 IndexAccessNode in auto)
  next
    case (IndexAssignNode l v)
    then show ?thesis using eval_index_assign_constants [OF assms] by simp
  next
    case (VarAssignNode name v c)
    obtain o1 s1 where e1: "ev v s = (o1, s1)" by (cases "ev v s")
    from D [OF e1] e1 VarAssignNode show ?thesis by (cases o1) auto
  next
    case (DestructureAssignNode names v c)
    obtain out s1 where e: "ev v s = (out, s1)" by (cases "ev v s")
    from D [OF e] destructure_constants [of s1 names c] e DestructureAssignNode
    show ?thesis by (cases out) auto
  next
    case (VarReassignNode name v)
    obtain o1 s1 where e1: "ev v s = (o1, s1)" by (cases "ev v s")
    from D [OF e1] e1 VarReassignNode show ?thesis
      by (cases "variables s name"; cases o1) simp_all
  next
    case (CompoundAssignNode name v op)
    show ?thesis
    proof (cases "variables s name")
      case None
      with CompoundAssignNode show ?thesis by simp
    next
      case (Some cur)
      show ?thesis
      proof (cases "name \<in> constants s")
        case True
        with Some CompoundAssignNode show ?thesis by simp
      next
        case False
        obtain out s1 where e: "ev v s = (out, s1)" by (cases "ev v s")
        from D [OF e] have c1: "constants s \<subseteq> constants s1" .
        show ?thesis
        proof (cases out)
          case (Value cv)
          obtain o2 s2 where c: "compound_op op cur cv s1 = (o2, s2)"
            by (cases "compound_op op cur cv s1")
          with same_env_compound_op [of s1 op cur cv] have "constants s2 = constants s1"
            by (simp add: same_env_def)
          with CompoundAssignNode Some False e Value c c1 show ?thesis by (cases o2) auto
        qed (use CompoundAssignNode Some False e c1 in auto)
      qed
    qed
  next
    case (IncrementNode name op prefix)
    show ?thesis
    proof (cases "variables s name")
      case None
      with IncrementNode show ?thesis by simp
    next
      case (Some cur)
      have a: "constants (snd (py_add cur (VInt 1) s)) = constants s"
        using same_env_py_add [of s cur "VInt 1"] by (simp add: same_env_def)
      have b: "constants (snd (py_sub cur (VInt 1) s)) = constants s"
        using same_env_py_sub [of s cur "VInt 1"] by (simp add: same_env_def)
      obtain o1 s1 where e1: "py_add cur (VInt 1) s = (o1, s1)" by (cases "py_add cur (VInt 1) s")
      obtain o2 s2 where e2: "py_sub cur (VInt 1) s = (o2, s2)" by (cases "py_sub cur (VInt 1) s")
      from a b e1 e2 have "constants s1 = constants s" "constants s2 = constants s" by simp_all
      with IncrementNode Some e1 e2 show ?thesis
        by (cases o1; cases o2) (simp_all add: runtime_error_def)
    qed
  next
    case (RangeNode a b c)
    obtain o1 s1 where e1: "ev a s = (o1, s1)" by (cases "ev a s")
    obtain o2 s2 where e2: "eval_optional ev b VNone s1 = (o2, s2)"
      by (cases "eval_optional ev b VNone s1")
    obtain o3 s3 where e3: "eval_optional ev c (VInt 1) s2 = (o3, s3)"
      by (cases "eval_optional ev c (VInt 1) s2")
    have m: "\<And>x y z. constants (snd (make_range x y z s3)) = constants s3"
      using same_env_make_range by (simp add: same_env_def)
    note c = D [OF e1] DO [OF e2] DO [OF e3]
    show ?thesis
    proof (cases o1)
      case v1: (Value x)
      show ?thesis
      proof (cases o2)
        case v2: (Value y)
        show ?thesis
        proof (cases o3)
          case v3: (Value z)
          from c e1 e2 e3 m [of x y z] RangeNode v1 v2 v3 show ?thesis by auto
        qed (use c e1 e2 e3 RangeNode v1 v2 in auto)
      qed (use c e1 e2 RangeNode v1 in auto)
    qed (use c e1 RangeNode in auto)
  next
    case (LambdaCallNode ps body e args)
    obtain r s1 where l: "eval_list ev args s = (r, s1)" by (cases "eval_list ev args s")
    from DL [OF l] call_constants [OF assms, of s1] l LambdaCallNode show ?thesis
      by (cases r) auto
  next
    case (FunctionCallNode name args)
    then show ?thesis using eval_function_call_constants [OF assms] by simp
  next
    case (BinaryOpNode l op r)
    obtain o1 s1 where e1: "ev l s = (o1, s1)" by (cases "ev l s")
    obtain o2 s2 where e2: "ev r s1 = (o2, s2)" by (cases "ev r s1")
    have m: "\<And>x y. constants (snd (binary_op op x y s2)) = constants s2"
      using same_env_binary_op by (simp add: same_env_def)
    note c = D [OF e1] D [OF e2]
    show ?thesis
    proof (cases o1)
      case v1: (Value x)
      show ?thesis
      proof (cases o2)
        case v2: (Value y)
        from c e1 e2 m [of x y] BinaryOpNode v1 v2 show ?thesis by auto
      qed (use c e1 e2 BinaryOpNode v1 in auto)
    qed (use c e1 BinaryOpNode in auto)
  next
    case (UnaryOpNode op x)
    obtain o1 s1 where e1: "ev x s = (o1, s1)" by (cases "ev x s")
    from D [OF e1] e1 UnaryOpNode show ?thesis by (cases o1) simp_all
  next
    case (IfNode c t elifs fb)
    obtain o1 s1 where e1: "ev c s = (o1, s1)" by (cases "ev c s")
    obtain o2 s2 where e2: "ev t s1 = (o2, s2)" by (cases "ev t s1")
    from D [OF e1] D [OF e2] eval_elifs_constants [OF assms, of s1 elifs fb] e1 e2 IfNode
    show ?thesis by (cases o1) auto
  next
    case (ForLoopNode var it body)
    then show ?thesis using eval_for_constants [OF assms] by simp
  next
    case (WhileLoopNode c body)
    then show ?thesis using while_loop_constants [OF assms] by simp
  next
    case (DoWhileLoopNode body c)
    then show ?thesis using do_while_loop_constants [OF assms] by simp
  next
    case (BlockNode stmts)
    then show ?thesis using eval_block_constants [OF assms] by simp
  next
    case (NumberNode x)
    then show ?thesis by (cases x) auto
  next
    case (VarAccessNode name)
    then show ?thesis by (cases "variables s name") simp_all
  qed simp_all
qed

lemma eval_step_variables:
  assumes "keeps_variables ev" and "is_expr n"
  shows "variables (snd (eval_step ev k n s)) = variables s"
proof -
  have D: "\<And>n s out s'. is_expr n \<Longrightarrow> ev n s = (out, s') \<Longrightarrow> variables s' = variables s"
    using assms(1) by (rule keeps_variablesD)
  show ?thesis
  proof (cases n)
    case (NumberNode x)
    then show ?thesis by (cases x) auto
  next
    case (ArrayNode es)
    obtain r s1 where l: "eval_list ev es s = (r, s1)" by (cases "eval_list ev es s")
    with eval_list_variables [OF assms(1), of es s] assms(2) ArrayNode
    have "variables s1 = variables s" by simp
    with l ArrayNode show ?thesis by (cases r) (auto simp: new_list_def)
  next
    case (IndexAccessNode c key)
    obtain o1 s1 where e1: "ev c s = (o1, s1)" by (cases "ev c s")
    obtain o2 s2 where e2: "ev key s1 = (o2, s2)" by (cases "ev key s1")
    from assms(2) IndexAccessNode have "is_expr c" "is_expr key" by simp_all
    note v = D [OF this(1) e1] D [OF this(2) e2]
    show ?thesis
    proof (cases o1)
      case w1: (Value x)
      from v e1 e2 IndexAccessNode w1 show ?thesis by (cases o2) auto
    qed (use v(1) e1 IndexAccessNode in auto)
  next
    case (VarAccessNode name)
    then show ?thesis by (auto split: option.splits)
  next
    case (RangeNode a b c)
    obtain o1 s1 where e1: "ev a s = (o1, s1)" by (cases "ev a s")
    obtain o2 s2 where e2: "eval_optional ev b VNone s1 = (o2, s2)"
      by (cases "eval_optional ev b VNone s1")
    obtain o3 s3 where e3: "eval_optional ev c (VInt 1) s2 = (o3, s3)"
      by (cases "eval_optional ev c (VInt 1) s2")
    from assms(2) RangeNode have ia: "is_expr a"
      and ib: "case b of None \<Rightarrow> True | Some m \<Rightarrow> is_expr m"
      and ic: "case c of None \<Rightarrow> True | Some m \<Rightarrow> is_expr m" by simp_all
    have v1: "variables s1 = variables s" using D [OF ia e1] .
    have v2: "variables s2 = variables s1"
      using eval_optional_variables [OF assms(1) ib, of VNone s1] e2 by simp
    have v3: "variables s3 = variables s2"
      using eval_optional_variables [OF assms(1) ic, of "VInt 1" s2] e3 by simp
    have m: "\<And>x y z. variables (snd (make_range x y z s3)) = variables s3"
      using same_env_make_range by (simp add: same_env_def)
    show ?thesis
    proof (cases o1)
      case w1: (Value x)
      show ?thesis
      proof (cases o2)
        case w2: (Value y)
        show ?thesis
        proof (cases o3)
          case w3: (Value z)
          from v1 v2 v3 e1 e2 e3 m [of x y z] RangeNode w1 w2 w3 show ?thesis by auto
        qed (use v1 v2 v3 e1 e2 e3 RangeNode w1 w2 in auto)
      qed (use v1 v2 e1 e2 RangeNode w1 in auto)
    qed (use v1 e1 RangeNode in auto)
  next
    case (LambdaCallNode ps body e args)
    obtain r s1 where l: "eval_list ev args s = (r, s1)" by (cases "eval_list ev args s")
    with eval_list_variables [OF assms(1), of args s] assms(2) LambdaCallNode
    have "variables s1 = variables s" by simp
    with l LambdaCallNode show ?thesis by (cases r) auto
  next
    case (FunctionCallNode name args)
    with eval_function_call_variables [OF assms(1), of args name s] assms(2)
    show ?thesis by simp
  next
    case (BinaryOpNode l op r)
    obtain o1 s1 where e1: "ev l s = (o1, s1)" by (cases "ev l s")
    obtain o2 s2 where e2: "ev r s1 = (o2, s2)" by (cases "ev r s1")
    from assms(2) BinaryOpNode have "is_expr l" "is_expr r" by simp_all
    note v = D [OF this(1) e1] D [OF this(2) e2]
    have m: "\<And>x y. variables (snd (binary_op op x y s2)) = variables s2"
      using same_env_binary_op by (simp add: same_env_def)
    show ?thesis
    proof (cases o1)
      case w1: (Value x)
      show ?thesis
      proof (cases o2)
        case w2: (Value y)
        from v e1 e2 m [of x y] BinaryOpNode w1 w2 show ?thesis by auto
      qed (use v e1 e2 BinaryOpNode w1 in auto)
    qed (use v(1) e1 BinaryOpNode in auto)
  next
    case (UnaryOpNode op x)
    obtain o1 s1 where e1: "ev x s = (o1, s1)" by (cases "ev x s")
    from assms(2) UnaryOpNode have "is_expr x" by simp
    from D [OF this e1] e1 UnaryOpNode show ?thesis by (cases o1) auto
  qed (use assms(2) in simp_all)
qed

text \<open>
  At every depth the evaluator never takes a name out of the constants, and the
  evaluation of an expression leaves the variables as they were: a call inside it
  restores them, and nothing else in an expression binds a name.
\<close>

lemma eval_keeps_environment:
  "keeps_constants (eval d k) \<and> keeps_variables (eval d k)"
proof (induction d)
  case 0
  show ?case by (simp add: keeps_constants_def keeps_variables_def)
next
  case (Suc d)
  then have c: "keeps_constants (eval d k)" and v: "keeps_variables (eval d k)" by simp_all
  have "constants s \<subseteq> constants (snd (eval (Suc d) k n s))" for n s
    using eval_step_constants [OF c, of s k n] by simp
  moreover have "is_expr n \<Longrightarrow> variables (snd (eval (Suc d) k n s)) = variables s" for n s
    using eval_step_variables [OF v, of n k s] by simp
  ultimately show ?case
    by (simp only: keeps_constants_def keeps_variables_def) blast
qed

lemma eval_expr_variables:
  "is_expr n \<Longrightarrow> eval d k n s = (out, s') \<Longrightarrow> variables s' = variables s"
  using eval_keeps_environment [of d k] by (auto dest: keeps_variablesD)

lemma eval_constants:
  "eval d k n s = (out, s') \<Longrightarrow> c \<in> constants s \<Longrightarrow> c \<in> constants s'"
  using eval_keeps_environment [of d k] by (auto dest: keeps_constantsD)

section \<open>Constants\<close>

lemma eval_path_abrupt:
  "eval_path ev n path s = (Inl out, s') \<Longrightarrow> out \<noteq> Value v"
proof (induction ev n path s rule: eval_path.induct)
  case (1 ev c key path s)
  obtain o1 s1 where e: "ev key s = (o1, s1)" by (cases "ev key s")
  show ?case
  proof (cases o1)
    case (Value x)
    with 1 e show ?thesis by simp
  qed (use 1(2) e in auto)
qed simp_all

lemma index_assign_constant:
  assumes bound: "variables s c = Some v0" and const: "c \<in> constants s"
    and root: "chain_root left = VarAccessNode c"
    and il: "is_expr left" and iv: "is_expr value_node"
  shows "variables (snd (eval (Suc d) k (IndexAssignNode left value_node) s)) = variables s"
    and "fst (eval (Suc d) k (IndexAssignNode left value_node) s) \<noteq> Value v"
    and "eval d k value_node s = (Value nv, s1) \<Longrightarrow>
         eval_path (eval d k) left [] s1 = (Inr (path, cur), s2) \<Longrightarrow>
         eval (Suc d) k (IndexAssignNode left value_node) s
           = (runtime_error (CannotModifyConstant c), s2)"
proof -
  have kv: "keeps_variables (eval d k)" and kc: "keeps_constants (eval d k)"
    using eval_keeps_environment [of d k] by simp_all
  obtain out t1 where e: "eval d k value_node s = (out, t1)" by (cases "eval d k value_node s")
  have v1: "variables t1 = variables s" using eval_expr_variables [OF iv e] .
  have c1: "c \<in> constants t1" using eval_constants [OF e const] .
  obtain r t2 where p: "eval_path (eval d k) left [] t1 = (r, t2)"
    by (cases "eval_path (eval d k) left [] t1")
  have v2: "variables t2 = variables t1"
    using eval_path_variables [OF kv il, of "[]" t1] p by simp
  have c2: "c \<in> constants t2"
    using eval_path_constants [OF kc, of t1 left "[]"] p c1 by auto
  have res: "eval (Suc d) k (IndexAssignNode left value_node) s
      = (case out of
           Value new_value \<Rightarrow>
             (case r of
                Inl o2 \<Rightarrow> (o2, t2)
              | Inr pc \<Rightarrow> (runtime_error (CannotModifyConstant c), t2))
         | _ \<Rightarrow> (out, t1))"
  proof (cases out)
    case (Value new_value)
    show ?thesis
    proof (cases r)
      case (Inl o2)
      with e p Value show ?thesis by (simp add: eval_index_assign_def)
    next
      case (Inr pc)
      obtain pth cr where pc: "pc = (pth, cr)" by (cases pc)
      with p Inr have "cr = chain_root left" by (auto dest: eval_path_root)
      with root have "var_access_name cr = Some c" by (simp add: var_access_name_def)
      with e p Value Inr pc bound v1 v2 c2 show ?thesis
        by (simp add: eval_index_assign_def)
    qed
  qed (use e in \<open>simp_all add: eval_index_assign_def\<close>)
  show "variables (snd (eval (Suc d) k (IndexAssignNode left value_node) s)) = variables s"
    using v1 v2 by (simp only: res) (cases out; cases r; simp)
  show "fst (eval (Suc d) k (IndexAssignNode left value_node) s) \<noteq> Value v"
  proof (cases out)
    case (Value new_value)
    show ?thesis
    proof (cases r)
      case (Inl o2)
      with p have "o2 \<noteq> Value v" by (auto dest: eval_path_abrupt)
      with Value Inl show ?thesis by (simp only: res) simp
    next
      case (Inr pc)
      with Value show ?thesis by (simp only: res) (simp add: runtime_error_def)
    qed
  qed (simp_all only: res, simp_all)
  assume a1: "eval d k value_node s = (Value nv, s1)"
    and a2: "eval_path (eval d k) left [] s1 = (Inr (path, cur), s2)"
  from a1 e have "out = Value nv" "t1 = s1" by simp_all
  with a2 p have "r = Inr (path, cur)" "t2 = s2" by simp_all
  with \<open>out = Value nv\<close> show "eval (Suc d) k (IndexAssignNode left value_node) s
           = (runtime_error (CannotModifyConstant c), s2)"
    by (simp only: res) simp
qed


text \<open>
  Claim C3, as the specification has it: every write operation on a name marked
  constant raises the constant-modification error. Two programs where it does not.
  In \<open>fun f() { lock c as 1; } f(); c as 2;\<close> the call marks \<open>c\<close> constant and its
  \<open>finally\<close> drops the binding, so the reassignment finds the name undefined first and
  raises \<open>VariableNotDefinedError\<close>, with \<open>c\<close> still marked constant. In
  \<open>lock c as [1]; c[1] as 1 / 0;\<close> the index assignment evaluates its value before it
  looks at the constants, and raises the division error.
\<close>

theorem constant_write_counterexample:
  "fst (run 6 0 unbound_constant_program Interpreter_init)
     = PuffingError (VariableNotDefinedError ''c'')
   \<and> ''c'' \<in> constants (snd (run 6 0 unbound_constant_program Interpreter_init))
   \<and> fst (run 6 0 failing_value_program Interpreter_init) = runtime_error DivisionByZero"
  by code_simp

text \<open>
  Claim C3, amended. Let a name be bound and marked constant. A reassignment, a
  compound assignment and an increment or decrement of the name end with the
  interpreter's "cannot reassign constant" or "cannot modify constant" \<open>RuntimeError\<close>
  before anything is evaluated, and so does every mutating builtin of the
  interpreter that is given the bare name as its container with the number of
  arguments it takes (when the program has not bound the builtin's name to a
  function of its own): the whole state is as before. An index assignment through
  the name evaluates its value and its keys first; it never yields a value, it
  leaves the variables as they were, and when the value and the keys evaluate to
  values it ends with the "cannot modify constant" \<open>RuntimeError\<close>.
\<close>

theorem constant_write_refused:
  "variables s c = Some v0 \<Longrightarrow> c \<in> constants s \<Longrightarrow>
   eval (Suc d) k (VarReassignNode c value_node) s = (runtime_error (CannotReassignConstant c), s)
   \<and> eval (Suc d) k (CompoundAssignNode c value_node operator) s
       = (runtime_error (CannotReassignConstant c), s)
   \<and> eval (Suc d) k (IncrementNode c operator prefix) s = (runtime_error (CannotModifyConstant c), s)
   \<and> (mutator_arity func_name = Some (Suc (length rest_args)) \<longrightarrow>
        user_callable (variables s func_name) = None \<longrightarrow>
        eval (Suc d) k (FunctionCallNode func_name (VarAccessNode c # rest_args)) s
          = (runtime_error (CannotModifyConstant c), s))
   \<and> (chain_root left = VarAccessNode c \<longrightarrow> is_expr left \<longrightarrow> is_expr new_value_node \<longrightarrow>
        variables (snd (eval (Suc d) k (IndexAssignNode left new_value_node) s)) = variables s
        \<and> fst (eval (Suc d) k (IndexAssignNode left new_value_node) s) \<noteq> Value v
        \<and> (eval d k new_value_node s = (Value nv, s1) \<longrightarrow>
             eval_path (eval d k) left [] s1 = (Inr (path, cur), s2) \<longrightarrow>
             eval (Suc d) k (IndexAssignNode left new_value_node) s
               = (runtime_error (CannotModifyConstant c), s2)))"
proof -
  assume bound: "variables s c = Some v0" and const: "c \<in> constants s"
  have builtin: "eval (Suc d) k (FunctionCallNode func_name (VarAccessNode c # rest_args)) s
          = (runtime_error (CannotModifyConstant c), s)"
    if ar: "mutator_arity func_name = Some (Suc (length rest_args))"
      and uc: "user_callable (variables s func_name) = None"
  proof -
    from ar have "func_name \<noteq> ''len''" by (auto simp: mutator_arity_def)
    with ar uc bound const show ?thesis
      by (simp add: eval_function_call_def eval_builtin_def var_access_name_def)
  qed
  have idx: "variables (snd (eval (Suc d) k (IndexAssignNode left new_value_node) s)) = variables s
        \<and> fst (eval (Suc d) k (IndexAssignNode left new_value_node) s) \<noteq> Value v
        \<and> (eval d k new_value_node s = (Value nv, s1) \<longrightarrow>
             eval_path (eval d k) left [] s1 = (Inr (path, cur), s2) \<longrightarrow>
             eval (Suc d) k (IndexAssignNode left new_value_node) s
               = (runtime_error (CannotModifyConstant c), s2))"
    if "chain_root left = VarAccessNode c" and "is_expr left" and "is_expr new_value_node"
    using index_assign_constant [OF bound const that(1) that(2) that(3)] by blast
  have direct: "eval (Suc d) k (VarReassignNode c value_node) s = (runtime_error (CannotReassignConstant c), s)"
    "eval (Suc d) k (CompoundAssignNode c value_node operator) s
       = (runtime_error (CannotReassignConstant c), s)"
    "eval (Suc d) k (IncrementNode c operator prefix) s = (runtime_error (CannotModifyConstant c), s)"
    using bound const by simp_all
  from direct builtin idx show ?thesis by blast
qed

theorem constant_write_refused_witness:
  "(let s = \<lparr>variables = [''c'' \<mapsto> VList 0], constants = {''c''}, heap = [[VInt 1, VInt 2]]\<rparr>
    in eval 1 0 (VarReassignNode ''c'' (NumberNode (NInt 5))) s
         = (runtime_error (CannotReassignConstant ''c''), s)
       \<and> eval 1 0 (FunctionCallNode ''push'' [VarAccessNode ''c'', NumberNode (NInt 3)]) s
         = (runtime_error (CannotModifyConstant ''c''), s)
       \<and> eval 2 0 (IndexAssignNode (IndexAccessNode (VarAccessNode ''c'') (NumberNode (NInt 1)))
                     (NumberNode (NInt 9))) s
         = (runtime_error (CannotModifyConstant ''c''), s))"
proof -
  let ?s = "\<lparr>variables = [''c'' \<mapsto> VList 0], constants = {''c''}, heap = [[VInt 1, VInt 2]]\<rparr>"
  let ?left = "IndexAccessNode (VarAccessNode ''c'') (NumberNode (NInt 1))"
  have h1: "variables ?s ''c'' = Some (VList 0)" and h2: "''c'' \<in> constants ?s" by simp_all
  have h3: "mutator_arity ''push'' = Some (Suc (length [NumberNode (NInt 3)]))"
    by (simp add: mutator_arity_def)
  have h4: "user_callable (variables ?s ''push'') = None" by (simp add: user_callable_def)
  have h5: "chain_root ?left = VarAccessNode ''c''" and h6: "is_expr ?left"
    and h7: "is_expr (NumberNode (NInt 9))" by simp_all
  have h8: "eval (Suc 0) 0 (NumberNode (NInt 9)) ?s = (Value (VInt 9), ?s)" by simp
  have h9: "eval_path (eval (Suc 0) 0) ?left [] ?s = (Inr ([VInt 1], VarAccessNode ''c''), ?s)"
    by simp
  from constant_write_refused [OF h1 h2, where d = 0 and k = 0 and func_name = "''push''"
      and rest_args = "[NumberNode (NInt 3)]" and value_node = "NumberNode (NInt 5)"]
  have a: "eval (Suc 0) 0 (VarReassignNode ''c'' (NumberNode (NInt 5))) ?s
         = (runtime_error (CannotReassignConstant ''c''), ?s)"
    and b: "eval (Suc 0) 0 (FunctionCallNode ''push'' [VarAccessNode ''c'', NumberNode (NInt 3)]) ?s
         = (runtime_error (CannotModifyConstant ''c''), ?s)"
    using h3 h4 by (simp_all del: eval.simps)
  from constant_write_refused [OF h1 h2, where d = "Suc 0" and k = 0 and left = ?left
      and new_value_node = "NumberNode (NInt 9)" and nv = "VInt 9" and ?s1.0 = ?s
      and path = "[VInt 1]" and cur = "VarAccessNode ''c''" and ?s2.0 = ?s]
  have c: "eval (Suc (Suc 0)) 0 (IndexAssignNode ?left (NumberNode (NInt 9))) ?s
         = (runtime_error (CannotModifyConstant ''c''), ?s)"
    using h5 h6 h7 h8 h9 by (simp del: eval.simps eval_path.simps)
  from a b c show ?thesis
    by (simp add: numeral_2_eq_2 Let_def del: eval.simps)
qed

section \<open>The loop variable of a for loop\<close>

text \<open>
  Claim C9. The iterable of a for loop is an expression. However the loop ends (its
  iterable used up, a \<open>break\<close>, or an error or a \<open>return\<close> on the way), the loop
  variable has afterwards the binding it had before the loop, and none when it had
  none. The restoring touches no other name: every other name is bound after the
  \<open>ForLoopNode\<close> as the iterations over the array or the text left it.
\<close>

theorem for_loop_restores_variable:
  "is_expr iterable_node \<Longrightarrow>
   variables (snd (eval (Suc d) k (ForLoopNode var_name iterable_node body) s)) var_name
     = variables s var_name
   \<and> (eval d k iterable_node s = (Value (VList a), s1) \<longrightarrow> x \<noteq> var_name \<longrightarrow>
        variables (snd (eval (Suc d) k (ForLoopNode var_name iterable_node body) s)) x
          = variables (snd (for_list (eval d k) k var_name body a 0 VNone s1)) x)
   \<and> (eval d k iterable_node s = (Value (VStr t), s1) \<longrightarrow> x \<noteq> var_name \<longrightarrow>
        variables (snd (eval (Suc d) k (ForLoopNode var_name iterable_node body) s)) x
          = variables (snd (for_str (eval d k) var_name body t VNone s1)) x)"
proof -
  assume ie: "is_expr iterable_node"
  obtain out t1 where e: "eval d k iterable_node s = (out, t1)"
    by (cases "eval d k iterable_node s")
  have v1: "variables t1 = variables s" using eval_expr_variables [OF ie e] .
  have first: "variables (snd (eval (Suc d) k (ForLoopNode var_name iterable_node body) s)) var_name
     = variables s var_name"
  proof (cases out)
    case (Value it)
    show ?thesis
    proof (cases it)
      case (VList b)
      with e Value v1 show ?thesis
        by (simp add: eval_for_def restore_loop_var_def split: prod.splits)
    next
      case (VStr u)
      with e Value v1 show ?thesis
        by (simp add: eval_for_def restore_loop_var_def split: prod.splits)
    qed (use e Value v1 in \<open>simp_all add: eval_for_def\<close>)
  qed (use e v1 in \<open>simp_all add: eval_for_def\<close>)
  have second: "variables (snd (eval (Suc d) k (ForLoopNode var_name iterable_node body) s)) x
          = variables (snd (for_list (eval d k) k var_name body a 0 VNone s1)) x"
    if "eval d k iterable_node s = (Value (VList a), s1)" and "x \<noteq> var_name"
    using that by (simp add: eval_for_def restore_loop_var_def split: prod.splits)
  have third: "variables (snd (eval (Suc d) k (ForLoopNode var_name iterable_node body) s)) x
          = variables (snd (for_str (eval d k) var_name body t VNone s1)) x"
    if "eval d k iterable_node s = (Value (VStr t), s1)" and "x \<noteq> var_name"
    using that by (simp add: eval_for_def restore_loop_var_def split: prod.splits)
  from first second third show ?thesis by simp
qed


theorem for_loop_restores_variable_witness:
  "(let s = \<lparr>variables = [''i'' \<mapsto> VInt 7, ''j'' \<mapsto> VInt 0], constants = {}, heap = []\<rparr>;
        body = BlockNode [VarReassignNode ''j'' (VarAccessNode ''i'')];
        s' = snd (eval 4 3 (ForLoopNode ''i'' (ArrayNode [NumberNode (NInt 10), NumberNode (NInt 20)]) body) s);
        s'' = snd (eval 4 3 (ForLoopNode ''c'' (StringNode ''ab'') body) s)
    in variables s' ''i'' = Some (VInt 7) \<and> variables s' ''j'' = Some (VInt 20)
       \<and> variables s'' ''c'' = None \<and> variables s'' ''j'' = Some (VInt 7))"
proof -
  let ?s = "\<lparr>variables = [''i'' \<mapsto> VInt 7, ''j'' \<mapsto> VInt 0], constants = {}, heap = []\<rparr>"
  let ?s1 = "\<lparr>variables = [''i'' \<mapsto> VInt 7, ''j'' \<mapsto> VInt 0], constants = {},
              heap = [[VInt 10, VInt 20]]\<rparr>"
  let ?body = "BlockNode [VarReassignNode ''j'' (VarAccessNode ''i'')]"
  let ?arr = "ArrayNode [NumberNode (NInt 10), NumberNode (NInt 20)]"
  have three: "(3::nat) = Suc (Suc (Suc 0))" and four: "(4::nat) = Suc (Suc (Suc (Suc 0)))" by simp_all
  have i1: "is_expr ?arr" and i2: "is_expr (StringNode ''ab'')" by simp_all
  have e1: "eval (Suc (Suc (Suc 0))) (Suc (Suc (Suc 0))) ?arr ?s = (Value (VList 0), ?s1)"
    by (simp add: new_list_def)
  have e2: "eval (Suc (Suc (Suc 0))) (Suc (Suc (Suc 0))) (StringNode ''ab'') ?s = (Value (VStr ''ab''), ?s)"
    by simp
  have l1: "variables (snd (for_list (eval (Suc (Suc (Suc 0))) (Suc (Suc (Suc 0)))) (Suc (Suc (Suc 0)))
               ''i'' ?body 0 0 VNone ?s1)) ''j'' = Some (VInt 20)"
    by (simp add: list_at_def goes_on_def loop_result_def)
  have l2: "variables (snd (for_str (eval (Suc (Suc (Suc 0))) (Suc (Suc (Suc 0)))) ''c'' ?body ''ab'' VNone ?s))
               ''j'' = Some (VInt 7)"
    by (simp add: goes_on_def loop_result_def)
  from for_loop_restores_variable [OF i1, where d = "Suc (Suc (Suc 0))" and k = "Suc (Suc (Suc 0))"
      and var_name = "''i''" and body = ?body and s = ?s and a = 0 and ?s1.0 = ?s1 and x = "''j''"]
    e1 l1
  have a: "variables (snd (eval (Suc (Suc (Suc (Suc 0)))) (Suc (Suc (Suc 0))) (ForLoopNode ''i'' ?arr ?body) ?s)) ''i''
             = Some (VInt 7)"
    and b: "variables (snd (eval (Suc (Suc (Suc (Suc 0)))) (Suc (Suc (Suc 0))) (ForLoopNode ''i'' ?arr ?body) ?s)) ''j''
             = Some (VInt 20)"
    by (simp_all del: eval.simps for_list.simps for_str.simps)
  from for_loop_restores_variable [OF i2, where d = "Suc (Suc (Suc 0))" and k = "Suc (Suc (Suc 0))"
      and var_name = "''c''" and body = ?body and s = ?s and t = "''ab''" and ?s1.0 = ?s and x = "''j''"]
    e2 l2
  have c: "variables (snd (eval (Suc (Suc (Suc (Suc 0)))) (Suc (Suc (Suc 0))) (ForLoopNode ''c'' (StringNode ''ab'') ?body) ?s)) ''c''
             = None"
    and d: "variables (snd (eval (Suc (Suc (Suc (Suc 0)))) (Suc (Suc (Suc 0))) (ForLoopNode ''c'' (StringNode ''ab'') ?body) ?s)) ''j''
             = Some (VInt 7)"
    by (simp_all del: eval.simps for_list.simps for_str.simps)
  from a b c d show ?thesis
    by (simp add: three four Let_def del: eval.simps)
qed

subsection \<open>Block comments that are never closed\<close>

text \<open>A text holds the close marker when a \<open>-\<close> is directly followed by a \<open>?\<close>.\<close>

fun has_close_marker :: "string \<Rightarrow> bool" where
  "has_close_marker (c # d # cs) = ((c = CHR ''-'' \<and> d = CHR ''?'') \<or> has_close_marker (d # cs))"
| "has_close_marker _ = False"

lemma find_comment_end_unclosed:
  "\<not> has_close_marker (remaining lx) \<Longrightarrow> remaining (find_comment_end lx) = []"
proof (induction lx rule: find_comment_end.induct)
  case (1 lx)
  show ?case
  proof (cases "remaining lx")
    case Nil
    then show ?thesis by (simp add: find_comment_end.simps [of lx] current_char_def)
  next
    case (Cons c cs)
    have cur: "current_char lx = Some c" using Cons by (simp add: current_char_def)
    have no: "\<not> (c = CHR ''-'' \<and> peek lx = Some (CHR ''?''))"
      using 1(2) Cons by (cases cs) (auto simp: peek_def)
    have rest: "\<not> has_close_marker (remaining (advance lx))"
      using 1(2) Cons by (cases cs) (auto simp: advance_def)
    from 1(1) [OF cur no rest] cur no show ?thesis
      by (auto simp: find_comment_end.simps [of lx])
  qed
qed

lemma unterminated_block_comment_accepted:
  assumes "\<not> has_close_marker text"
  shows "tokenize (''?-'' @ text) = Inr [Token EOF NoValue]"
proof -
  define lx where "lx = Lexer_init (''?-'' @ text)"
  define lx1 where "lx1 = skip_block_comment lx"
  have "remaining (advance (advance lx)) = text"
    by (simp add: lx_def Lexer_init_def advance_def current_char_def)
  with assms have "remaining lx1 = []"
    by (simp add: lx1_def skip_block_comment_def find_comment_end_unclosed)
  then have "tokenize_loop lx1 [] = Inr [Token EOF NoValue]"
    by (simp add: tokenize_loop.simps [of lx1] current_char_def)
  moreover have "current_char lx = Some (CHR ''?'')" and "peek lx = Some (CHR ''-'')"
    by (simp_all add: lx_def Lexer_init_def current_char_def peek_def)
  then have "tokenize_loop lx [] = tokenize_loop lx1 []"
    by (simp add: tokenize_loop.simps [of lx] lx1_def isspace_def code_point_def)
  ultimately show ?thesis by (simp add: tokenize_def lx_def)
qed

text \<open>
  Claim C6. The specification has \<open>tokenize\<close> fail with a \<open>LexerError\<close> on a block
  comment that is opened and not closed before the end of the input. The lexer does
  not: \<open>skip_block_comment\<close> runs to the end of the input and returns, and the text
  \<open>?- never closed\<close> yields the token sequence holding the end-of-input token alone.
\<close>

theorem tokenize_unterminated_block_comment:
  "tokenize ''?- never closed'' = Inr [Token EOF NoValue]"
  by code_simp
end
